theory Spec2Isabelle
  imports Complex_Main
begin

section \<open>Python values used by the repository\<close>

text \<open>
  A Python exception is kept as its class name and the text \<open>str(e)\<close> gives.
  A Python \<open>str\<close> is a \<open>string\<close>; the literals of the source are ASCII.
\<close>

datatype py_exception = PyExc (exc_class: string) (exc_str: string)

text \<open>\<open>s.startswith(p)\<close>.\<close>

fun startswith :: "string \<Rightarrow> string \<Rightarrow> bool" where
  "startswith s [] = True"
| "startswith [] (p # ps) = False"
| "startswith (c # cs) (p # ps) = (c = p \<and> startswith cs ps)"

text \<open>\<open>sub in s\<close> for two strings.\<close>

fun str_contains :: "string \<Rightarrow> string \<Rightarrow> bool" where
  "str_contains sub [] = (sub = [])"
| "str_contains sub (c # cs) = (startswith (c # cs) sub \<or> str_contains sub cs)"

text \<open>
  \<open>s.split(sep)\<close> for a non-empty separator (every separator of the source is a
  non-empty literal; Python raises ValueError on an empty one): the occurrences of
  \<open>sep\<close> are found from the left and do not overlap. \<open>cur\<close> is the piece being read.
\<close>

fun split_acc :: "string \<Rightarrow> string \<Rightarrow> string \<Rightarrow> string list" where
  "split_acc sep cur [] = [cur]"
| "split_acc sep cur (c # cs) =
     (if sep \<noteq> [] \<and> startswith (c # cs) sep
      then cur # split_acc sep [] (drop (length sep) (c # cs))
      else split_acc sep (cur @ [c]) cs)"

definition str_split :: "string \<Rightarrow> string \<Rightarrow> string list" where
  "str_split s sep = split_acc sep [] s"

text \<open>\<open>s.lower()\<close> on ASCII letters; every other character is kept.\<close>

definition lower_char :: "char \<Rightarrow> char" where
  "lower_char c =
     (case map_of (zip ''ABCDEFGHIJKLMNOPQRSTUVWXYZ'' ''abcdefghijklmnopqrstuvwxyz'') c of
        None \<Rightarrow> c
      | Some d \<Rightarrow> d)"

definition str_lower :: "string \<Rightarrow> string" where
  "str_lower s = map lower_char s"


section \<open>blockchain\_utilities.py: IPFSUtils\<close>

text \<open>
  \<open>validate_ipfs_hash\<close>: the empty string is falsy and is rejected first; then the
  three accepted shapes, in the order of the source.
\<close>

definition validate_ipfs_hash :: "string \<Rightarrow> bool" where
  "validate_ipfs_hash ipfs_hash =
     (if ipfs_hash = [] then False
      else if startswith ipfs_hash ''Qm'' \<and> length ipfs_hash = 46 then True
      else if startswith ipfs_hash ''b'' \<and> length ipfs_hash \<ge> 50 then True
      else if startswith ipfs_hash ''local://'' then True
      else False)"

text \<open>
  \<open>extract_cid_from_url\<close>: \<open>None\<close> is Python's \<open>None\<close>. \<open>parts[1]\<close> is read only
  when \<open>len(parts) > 1\<close>; \<open>split\<close> never returns an empty list, so \<open>[0]\<close> exists
  (lemma \<open>split_acc_not_Nil\<close>).
\<close>

definition extract_cid_from_url :: "string \<Rightarrow> string option" where
  "extract_cid_from_url url =
     (if str_contains ''/ipfs/'' url then
        (case str_split url ''/ipfs/'' of
           _ # p1 # _ \<Rightarrow>
             (case str_split p1 ''/'' of
                cid # _ \<Rightarrow> if validate_ipfs_hash cid then Some cid else None
              | [] \<Rightarrow> None)
         | _ \<Rightarrow> None)
      else None)"

definition generate_ipfs_urls :: "string \<Rightarrow> string list" where
  "generate_ipfs_urls ipfs_hash =
     (if \<not> validate_ipfs_hash ipfs_hash then []
      else if startswith ipfs_hash ''local://'' then [ipfs_hash]
      else [''https://ipfs.io/ipfs/'' @ ipfs_hash,
            ''https://gateway.pinata.cloud/ipfs/'' @ ipfs_hash,
            ''https://cloudflare-ipfs.com/ipfs/'' @ ipfs_hash,
            ''https://dweb.link/ipfs/'' @ ipfs_hash])"




section \<open>blockchain\_utilities.py: BlockchainUtils\<close>

subsection \<open>estimate\_total\_cost\<close>

text \<open>
  The returned dict, one field per key (\<open>est_gas_used\<close> is the key \<open>gas_used\<close>).
  The function is written over the two library calls it makes: \<open>from_wei number unit\<close>
  gives a decimal of type \<open>'d\<close> or raises, \<open>to_float\<close> (Python's \<open>float\<close>) turns it
  into a float of type \<open>'f\<close>. Python integers are unbounded: \<open>int\<close>.
  The order of the calls is the order of evaluation of the source: the product, then
  \<open>from_wei(cost_wei, 'ether')\<close>, then the dict with \<open>from_wei(gas_price, 'gwei')\<close>.
\<close>

record ('d, 'f) cost_estimate =
  est_gas_used :: int
  gas_price_wei :: int
  gas_price_gwei :: 'd
  total_cost_wei :: int
  total_cost_fil :: 'f
  total_cost_tfil :: 'f

definition estimate_total_cost ::
  "(int \<Rightarrow> string \<Rightarrow> py_exception + 'd) \<Rightarrow> ('d \<Rightarrow> 'f) \<Rightarrow> int \<Rightarrow> int
     \<Rightarrow> py_exception + ('d, 'f) cost_estimate" where
  "estimate_total_cost from_wei to_float gas_used gas_price =
     (let cost_wei = gas_used * gas_price in
      case from_wei cost_wei ''ether'' of
        Inl e \<Rightarrow> Inl e
      | Inr cost_fil \<Rightarrow>
          (case from_wei gas_price ''gwei'' of
             Inl e \<Rightarrow> Inl e
           | Inr gwei \<Rightarrow>
               Inr \<lparr> est_gas_used = gas_used,
                     gas_price_wei = gas_price,
                     gas_price_gwei = gwei,
                     total_cost_wei = cost_wei,
                     total_cost_fil = to_float cost_fil,
                     total_cost_tfil = to_float cost_fil \<rparr>))"

text \<open>
  \<open>Web3.from_wei\<close> is \<open>eth_utils.from_wei\<close>, a library function: an unknown unit
  raises ValueError (its message, which lists the units, is cut short); the number 0
  gives 0; a number below 0 or above
  \<open>MAX_WEI = 2 ** 256 - 1\<close> raises ValueError; otherwise the number is divided by the
  value of the unit, as a decimal of 999 digits, which holds the quotient exactly. The
  decimal is kept as a rational. The table is the library's \<open>units\<close>.
\<close>

definition MAX_WEI :: int where
  "MAX_WEI = 2 ^ 256 - 1"

definition units :: "(string \<times> nat) list" where
  "units =
     [(''wei'', 0), (''kwei'', 3), (''babbage'', 3), (''femtoether'', 3),
      (''mwei'', 6), (''lovelace'', 6), (''picoether'', 6),
      (''gwei'', 9), (''shannon'', 9), (''nanoether'', 9), (''nano'', 9),
      (''szabo'', 12), (''microether'', 12), (''micro'', 12),
      (''finney'', 15), (''milliether'', 15), (''milli'', 15),
      (''ether'', 18), (''kether'', 21), (''grand'', 21),
      (''mether'', 24), (''gether'', 27), (''tether'', 30)]"

definition from_wei :: "int \<Rightarrow> string \<Rightarrow> py_exception + rat" where
  "from_wei number unit =
     (case map_of units (str_lower unit) of
        None \<Rightarrow> Inl (PyExc ''ValueError'' ''Unknown unit'')
      | Some digits \<Rightarrow>
          if number = 0 then Inr 0
          else if number < 0 \<or> number > MAX_WEI
          then Inl (PyExc ''ValueError'' ''value must be between 1 and 2**256 - 1'')
          else Inr (of_int number / 10 ^ digits))"

subsection \<open>retry\_transaction\<close>

text \<open>
  A Python float: a finite one is kept as the rational it denotes.
\<close>

datatype pyfloat = Finite rat | PosInf | NegInf | NaN

text \<open>
  The float of a Python integer, as \<open>float * int\<close> takes it: beyond the range of a
  float the conversion raises. The integers converted here are powers of two, which
  are floats exactly below \<open>2 ** 1024\<close>.
\<close>

definition int_to_float :: "int \<Rightarrow> py_exception + rat" where
  "int_to_float n =
     (if \<bar>n\<bar> \<ge> 2 ^ 1024
      then Inl (PyExc ''OverflowError'' ''int too large to convert to float'')
      else Inr (of_int n))"

text \<open>
  The float nearest to an exact value \<open>y\<close> that is a float or lies beyond the range
  (such is the product of a float and a power of two): it is \<open>y\<close>, or an infinity.
\<close>

definition round_float :: "rat \<Rightarrow> pyfloat" where
  "round_float y =
     (if y \<ge> 2 ^ 1024 then PosInf
      else if y \<le> - (2 ^ 1024) then NegInf
      else Finite y)"

text \<open>
  \<open>delay * (2 ** attempt)\<close> for \<open>attempt \<ge> 0\<close>: the integer power is converted
  to a float, which may raise, and multiplied.
\<close>

definition wait_length :: "pyfloat \<Rightarrow> int \<Rightarrow> py_exception + pyfloat" where
  "wait_length delay attempt =
     (case int_to_float (2 ^ nat attempt) of
        Inl e \<Rightarrow> Inl e
      | Inr p \<Rightarrow>
          Inr (case delay of
                 Finite d \<Rightarrow> round_float (d * p)
               | PosInf \<Rightarrow> PosInf
               | NegInf \<Rightarrow> NegInf
               | NaN \<Rightarrow> NaN))"

text \<open>
  \<open>func\<close> is a callable with effects on a world \<open>'w\<close>: it returns a value or raises.
  So is \<open>time.sleep\<close>, the parameter \<open>sleep\<close>: it returns after the wait, or raises
  (ValueError on a negative length or NaN, OverflowError on a length beyond what the
  platform can wait).

  The delay is a float, as annotated. The two \<open>logger\<close> calls between the
  product and the wait write a log line and are left out.

  The history of a run lists what the helper did, in order: every call of \<open>func\<close>
  with its outcome, every wait that returned with its length, and the exception of a
  wait that raised (in computing the length or in \<open>time.sleep\<close>).
\<close>

datatype 'a retry_event =
    RetryCall "py_exception + 'a"
  | RetrySleep pyfloat
  | RetryWaitRaised py_exception

text \<open>\<open>range(n)\<close>: empty when \<open>n \<le> 0\<close>.\<close>

definition py_range :: "int \<Rightarrow> int list" where
  "py_range n = map int [0..<nat n]"

text \<open>
  The \<open>for\<close> loop over the remaining attempts. The result is \<open>Inl e\<close> when the helper
  raises \<open>e\<close>, \<open>Inr (Some v)\<close> when it returns \<open>v\<close>, and \<open>Inr None\<close> when the loop ends
  without a \<open>return\<close> (Python then returns \<open>None\<close>). An exception raised inside the
  handler, by the wait, leaves the helper.
\<close>

fun retry_loop ::
  "('w \<Rightarrow> (py_exception + 'a) \<times> 'w) \<Rightarrow> (pyfloat \<Rightarrow> 'w \<Rightarrow> (py_exception + unit) \<times> 'w)
     \<Rightarrow> int \<Rightarrow> pyfloat \<Rightarrow> int list \<Rightarrow> 'w
     \<Rightarrow> (py_exception + 'a option) \<times> 'w \<times> 'a retry_event list" where
  "retry_loop func sleep max_retries delay [] w = (Inr None, w, [])"
| "retry_loop func sleep max_retries delay (attempt # rest) w =
     (case func w of
        (Inr v, w1) \<Rightarrow> (Inr (Some v), w1, [RetryCall (Inr v)])
      | (Inl e, w1) \<Rightarrow>
          if attempt = max_retries - 1 then (Inl e, w1, [RetryCall (Inl e)])
          else
            (case wait_length delay attempt of
               Inl e2 \<Rightarrow> (Inl e2, w1, [RetryCall (Inl e), RetryWaitRaised e2])
             | Inr wait_time \<Rightarrow>
                 (case sleep wait_time w1 of
                    (Inl e2, w2) \<Rightarrow> (Inl e2, w2, [RetryCall (Inl e), RetryWaitRaised e2])
                  | (Inr u, w2) \<Rightarrow>
                      (case retry_loop func sleep max_retries delay rest w2 of
                         (r, w3, evs) \<Rightarrow>
                           (r, w3, RetryCall (Inl e) # RetrySleep wait_time # evs)))))"

definition retry_transaction ::
  "('w \<Rightarrow> (py_exception + 'a) \<times> 'w) \<Rightarrow> (pyfloat \<Rightarrow> 'w \<Rightarrow> (py_exception + unit) \<times> 'w)
     \<Rightarrow> int \<Rightarrow> pyfloat \<Rightarrow> 'w
     \<Rightarrow> (py_exception + 'a option) \<times> 'w \<times> 'a retry_event list" where
  "retry_transaction func sleep max_retries delay w =
     retry_loop func sleep max_retries delay (py_range max_retries) w"

text \<open>
  The calls of a history with their outcomes, its waits that returned, and the
  exceptions of its waits that raised.
\<close>

fun retry_calls :: "'a retry_event list \<Rightarrow> (py_exception + 'a) list" where
  "retry_calls [] = []"
| "retry_calls (RetryCall c # evs) = c # retry_calls evs"
| "retry_calls (ev # evs) = retry_calls evs"

fun retry_sleeps :: "'a retry_event list \<Rightarrow> pyfloat list" where
  "retry_sleeps [] = []"
| "retry_sleeps (RetrySleep d # evs) = d # retry_sleeps evs"
| "retry_sleeps (ev # evs) = retry_sleeps evs"

fun retry_raised :: "'a retry_event list \<Rightarrow> py_exception list" where
  "retry_raised [] = []"
| "retry_raised (RetryWaitRaised e # evs) = e # retry_raised evs"
| "retry_raised (ev # evs) = retry_raised evs"

text \<open>
  Calls and waits in turn: a call, a wait, a call, .., a call.
\<close>

fun interleave :: "(py_exception + 'a) list \<Rightarrow> pyfloat list \<Rightarrow> 'a retry_event list" where
  "interleave [] ws = []"
| "interleave [c] ws = [RetryCall c]"
| "interleave (c # c' # cs) [] = [RetryCall c]"
| "interleave (c # c' # cs) (x # ws) = RetryCall c # RetrySleep x # interleave (c' # cs) ws"

text \<open>
  What the events \<open>evs\<close> of a run of the loop from attempt \<open>a\<close> on look like, for
  \<open>max_retries = n\<close> and result \<open>r\<close>.
\<close>

definition retry_summary ::
  "(pyfloat \<Rightarrow> 'w \<Rightarrow> (py_exception + unit) \<times> 'w) \<Rightarrow> pyfloat \<Rightarrow> nat \<Rightarrow> nat
     \<Rightarrow> py_exception + 'a option \<Rightarrow> 'a retry_event list \<Rightarrow> bool" where
  "retry_summary sleep delay a n r evs \<longleftrightarrow>
     length (retry_calls evs) \<le> n - a
     \<and> evs = interleave (retry_calls evs) (retry_sleeps evs)
              @ map RetryWaitRaised (retry_raised evs)
     \<and> length (retry_sleeps evs) = length (retry_calls evs) - 1
     \<and> map Inr (retry_sleeps evs)
          = map (\<lambda>k. wait_length delay (int k)) [a..<a + length (retry_sleeps evs)]
     \<and> (\<forall>c \<in> set (butlast (retry_calls evs)). isl c)
     \<and> length (retry_raised evs) \<le> 1
     \<and> (\<forall>e. retry_raised evs = [e] \<longrightarrow>
           retry_calls evs \<noteq> [] \<and> isl (last (retry_calls evs))
           \<and> a + length (retry_calls evs) < n
           \<and> (wait_length delay (int (a + length (retry_calls evs) - 1)) = Inl e
                \<or> (\<exists>x w0 w1. wait_length delay (int (a + length (retry_calls evs) - 1)) = Inr x
                       \<and> sleep x w0 = (Inl e, w1))))
     \<and> (\<forall>e. r = Inl e \<longleftrightarrow>
           retry_raised evs = [e]
           \<or> (retry_raised evs = [] \<and> a < n \<and> length (retry_calls evs) = n - a
                \<and> last (retry_calls evs) = Inl e))
     \<and> (\<forall>v. r = Inr (Some v) \<longleftrightarrow>
           retry_calls evs \<noteq> [] \<and> last (retry_calls evs) = Inr v)
     \<and> (r = Inr None \<longleftrightarrow> n \<le> a)
     \<and> (n \<le> a \<longrightarrow> evs = [])"

text \<open>A function that fails every time, on a world that counts its calls.\<close>

definition always_fails :: "nat \<Rightarrow> (py_exception + int) \<times> nat" where
  "always_fails w = (Inl (PyExc ''Exception'' ''execution reverted''), Suc w)"

text \<open>A function that fails twice and then returns 42.\<close>

definition fails_twice :: "nat \<Rightarrow> (py_exception + int) \<times> nat" where
  "fails_twice w =
     (if w < 2 then (Inl (PyExc ''Exception'' ''execution reverted''), Suc w)
      else (Inr 42, Suc w))"

text \<open>
  A \<open>time.sleep\<close> that takes no time, with the errors of CPython 3.11 on Linux,
  whose longest wait is \<open>2 ** 63\<close> nanoseconds: the range is checked first, then
  the sign.
\<close>

definition platform_sleep :: "pyfloat \<Rightarrow> nat \<Rightarrow> (py_exception + unit) \<times> nat" where
  "platform_sleep secs w =
     (case secs of
        NaN \<Rightarrow> (Inl (PyExc ''ValueError'' ''Invalid value NaN (not a number)''), w)
      | PosInf \<Rightarrow>
          (Inl (PyExc ''OverflowError'' ''timestamp out of range for platform time_t''), w)
      | NegInf \<Rightarrow>
          (Inl (PyExc ''OverflowError'' ''timestamp out of range for platform time_t''), w)
      | Finite x \<Rightarrow>
          if \<bar>x\<bar> * 10 ^ 9 \<ge> 2 ^ 63
          then (Inl (PyExc ''OverflowError'' ''timestamp out of range for platform time_t''), w)
          else if x < 0
          then (Inl (PyExc ''ValueError'' ''sleep length must be non-negative''), w)
          else (Inr (), w))"


section \<open>filecoin\_contracts.py: FilecoinContractInterface\<close>

subsection \<open>Data\<close>

text \<open>
  The transaction receipt (the attributes the code reads), a built transaction, the
  parameters handed to \<open>build_transaction\<close>, and a contract function call
  \<open>contract.functions.NAME(args)\<close>.
\<close>

record receipt =
  status :: int
  blockNumber :: int
  gasUsed :: int

record transaction =
  tx_from :: string
  tx_to :: string
  tx_data :: string
  tx_gas :: int
  tx_gasPrice :: int
  tx_nonce :: int
  tx_chainId :: int

record tx_params =
  p_from :: string
  p_gas :: int
  p_gasPrice :: int
  p_nonce :: int
  p_chainId :: int

datatype abi_value = AInt int | AStr string | AStrList "string list"

datatype contract_call =
  ContractCall (call_address: string) (call_function: string) (call_args: "abi_value list")

text \<open>
  The dict the transaction methods return: \<open>{'success': True, 'tx_hash': .., ..}\<close>
  (\<open>repo_id\<close> is \<open>None\<close> while the key is absent; \<open>receipt_gas_used\<close> is the key
  \<open>gas_used\<close>) or \<open>{'success': False, 'error': ..}\<close>.
\<close>

record tx_success =
  tx_hash :: string
  block_number :: int
  receipt_gas_used :: int
  receipt :: receipt
  repo_id :: "int option"

datatype result = Success tx_success | Failure (error: string)

fun success :: "result \<Rightarrow> bool" where
  "success (Success ok) = True"
| "success (Failure msg) = False"

text \<open>
  What lies outside the object: the clock and the node behind \<open>self.w3\<close>, as
  functions on a world \<open>'w\<close>. A call returns a value or raises (an \<open>Exception\<close>;
  \<open>KeyboardInterrupt\<close> and the like are not modelled), and leaves a new world.
  \<open>time.time()\<close> reads the world; signing is a computation without effect.
  A transaction hash is kept as the text \<open>tx_hash.hex()\<close> gives;
  \<open>get_logs\<close> gives the number of log entries, which is all the code uses.
\<close>

record 'w web3 =
  time_time :: "'w \<Rightarrow> rat"
  do_sleep :: "rat \<Rightarrow> 'w \<Rightarrow> 'w"
  get_transaction_count :: "string \<Rightarrow> string \<Rightarrow> 'w \<Rightarrow> (py_exception + int) \<times> 'w"
  sign_transaction :: "transaction \<Rightarrow> string option \<Rightarrow> py_exception + string"
  send_raw_transaction :: "string \<Rightarrow> 'w \<Rightarrow> (py_exception + string) \<times> 'w"
  wait_for_transaction_receipt :: "string \<Rightarrow> int \<Rightarrow> 'w \<Rightarrow> (py_exception + receipt) \<times> 'w"
  estimate_gas :: "contract_call \<Rightarrow> string \<Rightarrow> 'w \<Rightarrow> (py_exception + int) \<times> 'w"
  eth_gas_price :: "'w \<Rightarrow> (py_exception + int) \<times> 'w"
  build_transaction :: "contract_call \<Rightarrow> tx_params \<Rightarrow> 'w \<Rightarrow> (py_exception + transaction) \<times> 'w"
  get_logs :: "string \<Rightarrow> 'w \<Rightarrow> (py_exception + nat) \<times> 'w"

text \<open>
  The history of a run: what the object did to the outside, in order. \<open>Attempt a\<close>
  marks the start of iteration \<open>a\<close> of the retry loop; \<open>Build n\<close> is the call
  \<open>transaction_builder(n)\<close>; \<open>Receipt st\<close> is a receipt with status \<open>st\<close> coming
  back from \<open>wait_for_transaction_receipt\<close>; the others are the calls of the same name.
\<close>

datatype event =
    Attempt int
  | GetTransactionCount string
  | Build int
  | Sign
  | SendRaw
  | Receipt int
  | Sleep rat
  | GetLogs

text \<open>
  The state: the fields of the object that the methods read or write (\<open>account\<close> is
  the address of the loaded account, \<open>None\<close> in read-only mode), the world, and the
  history so far.
\<close>

record 'w iface =
  account :: "string option"
  private_key :: "string option"
  nonce_cache :: "int option"
  last_nonce_update :: rat
  world :: 'w
  history :: "event list"

definition chain_id :: int where
  "chain_id = 314159"

definition github_protection :: string where
  "github_protection = ''0x19054030669efBFc413bA3729b63eCfD3Bdc22B5''"

definition link_registry :: string where
  "link_registry = ''0x5fa19b4a48C20202055c8a6fdf16688633617D50''"

text \<open>A call to the outside at world \<open>w\<close> leaves its mark in the history.\<close>

definition called :: "event \<Rightarrow> 'w \<Rightarrow> 'w iface \<Rightarrow> 'w iface" where
  "called ev w s = s\<lparr> world := w, history := history s @ [ev] \<rparr>"

definition mark :: "event \<Rightarrow> 'w iface \<Rightarrow> 'w iface" where
  "mark ev s = s\<lparr> history := history s @ [ev] \<rparr>"

text \<open>Reading \<open>self.account.address\<close> in read-only mode.\<close>

definition no_address :: py_exception where
  "no_address = PyExc ''AttributeError''
     (CHR 0x27 # ''NoneType'' @ CHR 0x27 # '' object has no attribute ''
        @ CHR 0x27 # ''address'' @ [CHR 0x27])"

subsection \<open>The nonce cache\<close>

text \<open>
  The body of the \<open>if\<close> of \<open>_get_nonce\<close>: the pending count is asked for; when that
  raises, the handler asks for the latest count, and an exception of this second call
  leaves the method. Only the first branch sets \<open>_last_nonce_update\<close>.
\<close>

definition refresh_nonce :: "'w web3 \<Rightarrow> rat \<Rightarrow> 'w iface \<Rightarrow> (py_exception + int) \<times> 'w iface" where
  "refresh_nonce w3 current_time s =
     (case account s of
        None \<Rightarrow> (Inl no_address, s)
      | Some address \<Rightarrow>
          (case get_transaction_count w3 address ''pending'' (world s) of
             (Inr n, w1) \<Rightarrow>
               (Inr n, (called (GetTransactionCount ''pending'') w1 s)
                          \<lparr> nonce_cache := Some n, last_nonce_update := current_time \<rparr>)
           | (Inl e, w1) \<Rightarrow>
               (let s1 = called (GetTransactionCount ''pending'') w1 s in
                case get_transaction_count w3 address ''latest'' w1 of
                  (Inr n, w2) \<Rightarrow>
                    (Inr n, (called (GetTransactionCount ''latest'') w2 s1)
                               \<lparr> nonce_cache := Some n \<rparr>)
                | (Inl e2, w2) \<Rightarrow>
                    (Inl e2, called (GetTransactionCount ''latest'') w2 s1))))"

definition get_nonce :: "'w web3 \<Rightarrow> bool \<Rightarrow> 'w iface \<Rightarrow> (py_exception + int) \<times> 'w iface" where
  "get_nonce w3 force_refresh s =
     (let current_time = time_time w3 (world s) in
      case nonce_cache s of
        None \<Rightarrow> refresh_nonce w3 current_time s
      | Some cached \<Rightarrow>
          if force_refresh \<or> current_time - last_nonce_update s > 30
          then refresh_nonce w3 current_time s
          else (Inr cached, s))"

definition increment_nonce :: "'w iface \<Rightarrow> 'w iface" where
  "increment_nonce s =
     (case nonce_cache s of
        None \<Rightarrow> s
      | Some n \<Rightarrow> s\<lparr> nonce_cache := Some (n + 1) \<rparr>)"

subsection \<open>\_send\_transaction\_with\_retry\<close>

text \<open>
  The \<open>try\<close> block of one iteration: \<open>Inr\<close> is a \<open>return\<close> of the method, \<open>Inl\<close>
  an exception on its way to the handler. The builder is a callable that works on the
  world and does not write the fields of the object (as the three builders of the
  source).
\<close>

definition send_attempt ::
  "'w web3 \<Rightarrow> (int \<Rightarrow> 'w \<Rightarrow> (py_exception + transaction) \<times> 'w) \<Rightarrow> int \<Rightarrow> 'w iface
     \<Rightarrow> (py_exception + result) \<times> 'w iface" where
  "send_attempt w3 transaction_builder attempt s =
     (let force_refresh = attempt > 0 in
      case get_nonce w3 force_refresh s of
        (Inl e, s1) \<Rightarrow> (Inl e, s1)
      | (Inr nonce, s1) \<Rightarrow>
          (case transaction_builder nonce (world s1) of
             (Inl e, w2) \<Rightarrow> (Inl e, called (Build nonce) w2 s1)
           | (Inr transaction, w2) \<Rightarrow>
               (let s2 = called (Build nonce) w2 s1 in
                case sign_transaction w3 transaction (private_key s2) of
                  Inl e \<Rightarrow> (Inl e, mark Sign s2)
                | Inr raw \<Rightarrow>
                    (case send_raw_transaction w3 raw w2 of
                       (Inl e, w3a) \<Rightarrow> (Inl e, called SendRaw w3a (mark Sign s2))
                     | (Inr txh, w3a) \<Rightarrow>
                         (let s3 = called SendRaw w3a (mark Sign s2) in
                          case wait_for_transaction_receipt w3 txh 300 w3a of
                            (Inl e, w4) \<Rightarrow> (Inl e, s3\<lparr> world := w4 \<rparr>)
                          | (Inr tx_receipt, w4) \<Rightarrow>
                              (let s4 = called (Receipt (status tx_receipt)) w4 s3 in
                               if status tx_receipt = 1
                               then (Inr (Success \<lparr> tx_hash = txh,
                                                     block_number = blockNumber tx_receipt,
                                                     receipt_gas_used = gasUsed tx_receipt,
                                                     receipt = tx_receipt,
                                                     repo_id = None \<rparr>),
                                     increment_nonce s4)
                               else (Inr (Failure ''Transaction failed (status 0)''), s4)))))))"

text \<open>Is the text of an exception about the nonce? (The test of the handler.)\<close>

definition nonce_error :: "string \<Rightarrow> bool" where
  "nonce_error error_msg =
     (str_contains ''nonce too low'' (str_lower error_msg)
      \<or> str_contains ''nonce'' (str_lower error_msg))"

text \<open>
  The \<open>for\<close> loop over the attempts that remain, with the handler of the \<open>try\<close>;
  the sleeps have a positive constant length, so \<open>time.sleep\<close> does not raise.
\<close>

fun send_loop ::
  "'w web3 \<Rightarrow> (int \<Rightarrow> 'w \<Rightarrow> (py_exception + transaction) \<times> 'w) \<Rightarrow> int \<Rightarrow> int list \<Rightarrow> 'w iface
     \<Rightarrow> result \<times> 'w iface" where
  "send_loop w3 transaction_builder max_retries [] s =
     (Failure ''Max retries exceeded'', s)"
| "send_loop w3 transaction_builder max_retries (attempt # rest) s =
     (case send_attempt w3 transaction_builder attempt (mark (Attempt attempt) s) of
        (Inr r, s1) \<Rightarrow> (r, s1)
      | (Inl e, s1) \<Rightarrow>
          (let error_msg = exc_str e in
           if nonce_error error_msg
           then send_loop w3 transaction_builder max_retries rest
                  (called (Sleep 2) (do_sleep w3 2 (world s1)) (s1\<lparr> nonce_cache := None \<rparr>))
           else if attempt = max_retries - 1
           then (Failure error_msg, s1)
           else send_loop w3 transaction_builder max_retries rest
                  (called (Sleep 1) (do_sleep w3 1 (world s1)) s1)))"

definition send_transaction_with_retry ::
  "'w web3 \<Rightarrow> (int \<Rightarrow> 'w \<Rightarrow> (py_exception + transaction) \<times> 'w) \<Rightarrow> int \<Rightarrow> 'w iface
     \<Rightarrow> result \<times> 'w iface" where
  "send_transaction_with_retry w3 transaction_builder max_retries s =
     send_loop w3 transaction_builder max_retries (py_range max_retries) s"

text \<open>The receipts, the attempts and the nonces handed to the builder, in a history.\<close>

fun receipts :: "event list \<Rightarrow> int list" where
  "receipts [] = []"
| "receipts (Receipt st # evs) = st # receipts evs"
| "receipts (ev # evs) = receipts evs"

fun attempts :: "event list \<Rightarrow> int list" where
  "attempts [] = []"
| "attempts (Attempt a # evs) = a # attempts evs"
| "attempts (ev # evs) = attempts evs"

fun builds :: "event list \<Rightarrow> int list" where
  "builds [] = []"
| "builds (Build n # evs) = n # builds evs"
| "builds (ev # evs) = builds evs"

fun node_queries :: "event list \<Rightarrow> string list" where
  "node_queries [] = []"
| "node_queries (GetTransactionCount tag # evs) = tag # node_queries evs"
| "node_queries (ev # evs) = node_queries evs"

subsection \<open>The transaction methods\<close>

text \<open>\<open>d.get(key, dflt)\<close> and the text of the KeyError of \<open>d[key]\<close>.\<close>

definition dict_get :: "(string \<rightharpoonup> string) \<Rightarrow> string \<Rightarrow> string \<Rightarrow> string" where
  "dict_get d key dflt = (case d key of None \<Rightarrow> dflt | Some v \<Rightarrow> v)"

definition key_error :: "string \<Rightarrow> py_exception" where
  "key_error key = PyExc ''KeyError'' (CHR 0x27 # key @ [CHR 0x27])"

text \<open>
  The common end of the three \<open>build_transaction\<close> closures: estimate the gas, read
  the gas price while the parameter dict is built, and build.
\<close>

definition estimate_and_build ::
  "'w web3 \<Rightarrow> string \<Rightarrow> contract_call \<Rightarrow> int \<Rightarrow> int \<Rightarrow> 'w \<Rightarrow> (py_exception + transaction) \<times> 'w" where
  "estimate_and_build w3 address function_call buffer nonce w =
     (case estimate_gas w3 function_call address w of
        (Inl e, w1) \<Rightarrow> (Inl e, w1)
      | (Inr gas_estimate, w1) \<Rightarrow>
          (case eth_gas_price w3 w1 of
             (Inl e, w2) \<Rightarrow> (Inl e, w2)
           | (Inr price, w2) \<Rightarrow>
               build_transaction w3 function_call
                 \<lparr> p_from = address, p_gas = gas_estimate + buffer, p_gasPrice = price,
                   p_nonce = nonce, p_chainId = chain_id \<rparr> w2))"

definition register_build_transaction ::
  "'w web3 \<Rightarrow> string \<Rightarrow> (string \<rightharpoonup> string) \<Rightarrow> string list \<Rightarrow> int \<Rightarrow> 'w
     \<Rightarrow> (py_exception + transaction) \<times> 'w" where
  "register_build_transaction w3 address repo_data key_features nonce w =
     (case repo_data ''github_url'' of
        None \<Rightarrow> (Inl (key_error ''github_url''), w)
      | Some github_url \<Rightarrow>
          (case repo_data ''repo_hash'' of
             None \<Rightarrow> (Inl (key_error ''repo_hash''), w)
           | Some repo_hash \<Rightarrow>
               (case repo_data ''fingerprint'' of
                  None \<Rightarrow> (Inl (key_error ''fingerprint''), w)
                | Some fingerprint \<Rightarrow>
                    estimate_and_build w3 address
                      (ContractCall github_protection ''processSubmission''
                         [AInt 0, AInt 0, AStr github_url, AStr repo_hash, AStr fingerprint,
                          AStrList key_features,
                          AStr (dict_get repo_data ''license_type'' ''MIT''),
                          AStr (dict_get repo_data ''ipfs_metadata'' ''''),
                          AStr '''', AInt 0])
                      50000 nonce w)))"

text \<open>\<open>_extract_repo_id_from_logs\<close>: a bare \<open>except\<close> turns any failure into 1.\<close>

definition extract_repo_id_from_logs :: "'w web3 \<Rightarrow> 'w iface \<Rightarrow> int \<times> 'w iface" where
  "extract_repo_id_from_logs w3 s =
     (case get_logs w3 github_protection (world s) of
        (Inr n, w1) \<Rightarrow> (int n + 1, called GetLogs w1 s)
      | (Inl e, w1) \<Rightarrow> (1, called GetLogs w1 s))"

text \<open>
  The three methods. \<open>max_retries\<close> is left at its default, 3. The outer
  \<open>try/except\<close> of each has nothing to catch here: the values of \<open>repo_data\<close> are
  strings, and the calls inside do not raise.
\<close>

definition register_repository_on_chain ::
  "'w web3 \<Rightarrow> (string \<rightharpoonup> string) \<Rightarrow> 'w iface \<Rightarrow> result \<times> 'w iface" where
  "register_repository_on_chain w3 repo_data s =
     (case account s of
        None \<Rightarrow> (Failure ''No account configured for transactions'', s)
      | Some address \<Rightarrow>
          (let key_features = take 5 (str_split (dict_get repo_data ''key_features'' '''') [CHR 0x0A]) in
           case send_transaction_with_retry w3
                  (register_build_transaction w3 address repo_data key_features) 3 s of
             (Success ok, s1) \<Rightarrow>
               (case extract_repo_id_from_logs w3 s1 of
                  (rid, s2) \<Rightarrow> (Success (ok\<lparr> repo_id := Some rid \<rparr>), s2))
           | (Failure msg, s1) \<Rightarrow> (Failure msg, s1)))"

definition add_link_to_registry ::
  "'w web3 \<Rightarrow> string \<Rightarrow> string \<Rightarrow> 'w iface \<Rightarrow> result \<times> 'w iface" where
  "add_link_to_registry w3 github_url license_cid s =
     (case account s of
        None \<Rightarrow> (Failure ''No account configured for transactions'', s)
      | Some address \<Rightarrow>
          send_transaction_with_retry w3
            (estimate_and_build w3 address
               (ContractCall link_registry ''addLink'' [AStr github_url, AStr license_cid]) 30000)
            3 s)"

definition file_dmca_on_chain ::
  "'w web3 \<Rightarrow> string \<Rightarrow> string \<Rightarrow> 'w iface \<Rightarrow> result \<times> 'w iface" where
  "file_dmca_on_chain w3 infringing_url dmca_cid s =
     (case account s of
        None \<Rightarrow> (Failure ''No account configured for transactions'', s)
      | Some address \<Rightarrow>
          send_transaction_with_retry w3
            (estimate_and_build w3 address
               (ContractCall link_registry ''fileDMCA'' [AStr infringing_url, AStr dmca_cid]) 30000)
            3 s)"

subsection \<open>Reading a run of the retry loop\<close>

text \<open>
  What the events \<open>evs\<close> of a run of the loop from attempt \<open>a\<close> on look like, for
  \<open>max_retries = n\<close>, result \<open>r\<close> and final cache \<open>cache\<close>: the attempts made are
  \<open>a, a + 1, ..\<close> below \<open>n\<close>; each attempt calls the builder and sends at most once; a
  receipt is the last event of the run and decides the result; without a receipt every
  attempt was made.
\<close>

definition run_summary :: "nat \<Rightarrow> nat \<Rightarrow> result \<Rightarrow> int option \<Rightarrow> event list \<Rightarrow> bool" where
  "run_summary a n r cache evs \<longleftrightarrow>
     (\<exists>k \<le> n. attempts evs = map int [a..<k])
     \<and> length (builds evs) \<le> length (attempts evs)
     \<and> count_list evs SendRaw \<le> length (attempts evs)
     \<and> (success r \<longleftrightarrow> 1 \<in> set (receipts evs))
     \<and> (\<forall>st \<in> set (receipts evs). last evs = Receipt st \<and> receipts evs = [st])
     \<and> (\<forall>st \<in> set (receipts evs). st \<noteq> 1 \<longrightarrow> r = Failure ''Transaction failed (status 0)'')
     \<and> (receipts evs = [] \<longrightarrow> attempts evs = map int [a..<n])
     \<and> (success r \<longrightarrow> builds evs \<noteq> [] \<and> cache = Some (last (builds evs) + 1))"

text \<open>The events a run from state \<open>s\<close> to state \<open>s'\<close> added to the history.\<close>

definition events_since :: "'w iface \<Rightarrow> 'w iface \<Rightarrow> event list" where
  "events_since s s' = drop (length (history s)) (history s')"

text \<open>
  What the node gives as the transaction count of \<open>address\<close> at world \<open>w\<close>: the
  pending count, or the latest count when asking for the pending one raises.
\<close>

definition fetched_nonce :: "'w web3 \<Rightarrow> string \<Rightarrow> 'w \<Rightarrow> int option" where
  "fetched_nonce w3 address w =
     (case get_transaction_count w3 address ''pending'' w of
        (Inr n, w1) \<Rightarrow> Some n
      | (Inl e, w1) \<Rightarrow>
          (case get_transaction_count w3 address ''latest'' w1 of
             (Inr n, w2) \<Rightarrow> Some n
           | (Inl e2, w2) \<Rightarrow> None))"

subsection \<open>A node to run the methods on\<close>

text \<open>
  A world is the time and the number of transactions of the account that were mined.
  The account starts with 7 transactions; every transaction sent is mined after 10
  seconds with status 1; asking for the pending count fails while \<open>pending_down\<close>.
\<close>

definition demo_w3 :: "bool \<Rightarrow> (rat \<times> nat) web3" where
  "demo_w3 pending_down =
     \<lparr> time_time = fst,
       do_sleep = (\<lambda>secs (t, k). (t + secs, k)),
       get_transaction_count = (\<lambda>address tag (t, k).
          if pending_down \<and> tag = ''pending''
          then (Inl (PyExc ''ValueError'' ''pending block is not available''), (t, k))
          else (Inr (7 + int k), (t, k))),
       sign_transaction = (\<lambda>tx key.
          case key of
            None \<Rightarrow> Inl (PyExc ''TypeError'' ''no private key'')
          | Some k \<Rightarrow> Inr ''0xf86c''),
       send_raw_transaction = (\<lambda>raw (t, k). (Inr ''0xabc'', (t, k))),
       wait_for_transaction_receipt = (\<lambda>txh timeout (t, k).
          (Inr \<lparr> status = 1, blockNumber = 100 + int k, gasUsed = 21000 \<rparr>, (t + 10, Suc k))),
       estimate_gas = (\<lambda>call address (t, k). (Inr 100000, (t, k))),
       eth_gas_price = (\<lambda>(t, k). (Inr 1000000000, (t, k))),
       build_transaction = (\<lambda>call params (t, k).
          (Inr \<lparr> tx_from = p_from params, tx_to = call_address call,
                 tx_data = call_function call, tx_gas = p_gas params,
                 tx_gasPrice = p_gasPrice params, tx_nonce = p_nonce params,
                 tx_chainId = p_chainId params \<rparr>, (t, k))),
       get_logs = (\<lambda>address (t, k). (Inr k, (t, k))) \<rparr>"

text \<open>
  A builder whose gas estimate the node refuses while the nonce is below the
  transaction count of the account.
\<close>

definition demo_builder :: "int \<Rightarrow> rat \<times> nat \<Rightarrow> (py_exception + transaction) \<times> (rat \<times> nat)" where
  "demo_builder nonce w =
     (if nonce < 7 + int (snd w)
      then (Inl (PyExc ''ValueError'' ''Nonce too low''), w)
      else estimate_and_build (demo_w3 False) ''0xA11CE''
             (ContractCall link_registry ''addLink'' [AStr ''u'', AStr ''c'']) 30000 nonce w)"

text \<open>
  An object whose cache is stale (5, while the account has 7 transactions) but still
  within its 30 seconds; one with a fresh cache; one in read-only mode.
\<close>

definition stale_state :: "(rat \<times> nat) iface" where
  "stale_state =
     \<lparr> account = Some ''0xA11CE'', private_key = Some ''key'', nonce_cache = Some 5,
       last_nonce_update = 0, world = (10, 0), history = [] \<rparr>"

definition fresh_state :: "(rat \<times> nat) iface" where
  "fresh_state =
     \<lparr> account = Some ''0xA11CE'', private_key = Some ''key'', nonce_cache = Some 7,
       last_nonce_update = 5, world = (10, 0), history = [] \<rparr>"

definition read_only_state :: "(rat \<times> nat) iface" where
  "read_only_state =
     \<lparr> account = None, private_key = None, nonce_cache = None,
       last_nonce_update = 0, world = (10, 0), history = [] \<rparr>"


section \<open>enhanced\_ipfs\_manager.py: EnhancedIPFSManager\<close>

subsection \<open>Construction\<close>

text \<open>
  The configuration keys the constructor reads; \<open>None\<close> is a missing key.
  A value counts as configured when it is truthy: present and not the empty string.
\<close>

record ipfs_config =
  cfg_PINATA_API_KEY :: "string option"
  cfg_PINATA_API_SECRET :: "string option"
  cfg_WEB3_STORAGE_TOKEN :: "string option"
  cfg_LOCAL_IPFS_URL :: "string option"

definition truthy :: "string option \<Rightarrow> bool" where
  "truthy v = (case v of None \<Rightarrow> False | Some s \<Rightarrow> s \<noteq> [])"

record ipfs_manager =
  pinata_api_key :: "string option"
  pinata_api_secret :: "string option"
  web3_storage_token :: "string option"
  local_ipfs_url :: string
  pinata_headers :: "(string \<times> string) list"
  service_priority :: "string list"

text \<open>\<open>_determine_service_priority\<close>, on the three credentials of the object.\<close>

definition determine_service_priority ::
  "string option \<Rightarrow> string option \<Rightarrow> string option \<Rightarrow> string list" where
  "determine_service_priority api_key api_secret token =
     (let services = [];
          services = (if truthy api_key \<and> truthy api_secret
                      then services @ [''pinata''] else services);
          services = (if truthy token then services @ [''web3_storage''] else services);
          services = services @ [''local_ipfs''];
          services = services @ [''local_file'']
      in services)"

text \<open>\<open>__init__\<close>.\<close>

definition init_manager :: "ipfs_config \<Rightarrow> ipfs_manager" where
  "init_manager config =
     \<lparr> pinata_api_key = cfg_PINATA_API_KEY config,
       pinata_api_secret = cfg_PINATA_API_SECRET config,
       web3_storage_token = cfg_WEB3_STORAGE_TOKEN config,
       local_ipfs_url =
         (case cfg_LOCAL_IPFS_URL config of None \<Rightarrow> ''http://localhost:5001'' | Some u \<Rightarrow> u),
       pinata_headers =
         (case (cfg_PINATA_API_KEY config, cfg_PINATA_API_SECRET config) of
            (Some api_key, Some api_secret) \<Rightarrow>
              if api_key \<noteq> [] \<and> api_secret \<noteq> []
              then [(''pinata_api_key'', api_key), (''pinata_secret_api_key'', api_secret)]
              else []
          | _ \<Rightarrow> []),
       service_priority =
         determine_service_priority (cfg_PINATA_API_KEY config)
           (cfg_PINATA_API_SECRET config) (cfg_WEB3_STORAGE_TOKEN config) \<rparr>"

subsection \<open>The services\<close>

text \<open>
  The file system and the HTTP services, as functions on a world \<open>'w\<close>. Each upload
  stands for the block that opens the file, posts it, checks the response and reads the
  hash out of the JSON answer: it gives the hash or raises. \<open>http_head\<close> gives the
  status code of \<open>requests.head\<close> or raises.
\<close>

record 'w storage =
  path_exists :: "string \<Rightarrow> 'w \<Rightarrow> bool"
  path_abspath :: "string \<Rightarrow> 'w \<Rightarrow> py_exception + string"
  pinata_pin_file :: "(string \<times> string) list \<Rightarrow> string \<Rightarrow> (string \<rightharpoonup> string) option \<Rightarrow> 'w
     \<Rightarrow> (py_exception + string) \<times> 'w"
  web3_storage_post :: "string \<Rightarrow> string \<Rightarrow> 'w \<Rightarrow> (py_exception + string) \<times> 'w"
  local_ipfs_add :: "string \<Rightarrow> string \<Rightarrow> 'w \<Rightarrow> (py_exception + string) \<times> 'w"
  http_head :: "string \<Rightarrow> int \<Rightarrow> 'w \<Rightarrow> (py_exception + int) \<times> 'w"
  storage_sleep :: "rat \<Rightarrow> 'w \<Rightarrow> 'w"

text \<open>
  \<open>_verify_ipfs_content_with_retry\<close>: the first two gateways are asked in turn; a
  status 200 verifies; any other status and any exception moves on to the next
  gateway; between two rounds the method sleeps 5 seconds. \<open>s.replace(old, '')\<close> is
  the pieces of \<open>s.split(old)\<close> put together.
\<close>

fun verify_gateways :: "'w storage \<Rightarrow> int \<Rightarrow> string list \<Rightarrow> 'w \<Rightarrow> bool \<times> 'w" where
  "verify_gateways env timeout [] w = (False, w)"
| "verify_gateways env timeout (gateway_url # rest) w =
     (case http_head env gateway_url timeout w of
        (Inr status_code, w1) \<Rightarrow>
          if status_code = 200 then (True, w1) else verify_gateways env timeout rest w1
      | (Inl e, w1) \<Rightarrow> verify_gateways env timeout rest w1)"

fun verify_rounds ::
  "'w storage \<Rightarrow> string list \<Rightarrow> int \<Rightarrow> int \<Rightarrow> int list \<Rightarrow> 'w \<Rightarrow> bool \<times> 'w" where
  "verify_rounds env gateways max_retries timeout [] w = (False, w)"
| "verify_rounds env gateways max_retries timeout (attempt # rest) w =
     (case verify_gateways env timeout (take 2 gateways) w of
        (True, w1) \<Rightarrow> (True, w1)
      | (False, w1) \<Rightarrow>
          verify_rounds env gateways max_retries timeout rest
            (if attempt < max_retries - 1 then storage_sleep env 5 w1 else w1))"

definition verify_ipfs_content_with_retry ::
  "'w storage \<Rightarrow> string \<Rightarrow> int \<Rightarrow> int \<Rightarrow> 'w \<Rightarrow> bool \<times> 'w" where
  "verify_ipfs_content_with_retry env ipfs_hash max_retries timeout w =
     (if \<not> validate_ipfs_hash ipfs_hash then (False, w)
      else if startswith ipfs_hash ''local://''
      then (path_exists env (concat (str_split ipfs_hash ''local://'')) w, w)
      else verify_rounds env (generate_ipfs_urls ipfs_hash) max_retries timeout
             (py_range max_retries) w)"

text \<open>
  The four upload methods. Pinata returns the hash whether or not the verification
  succeeds.
\<close>

definition upload_to_pinata ::
  "'w storage \<Rightarrow> ipfs_manager \<Rightarrow> string \<Rightarrow> (string \<rightharpoonup> string) option \<Rightarrow> 'w
     \<Rightarrow> (py_exception + string) \<times> 'w" where
  "upload_to_pinata env mgr file_path metadata w =
     (if pinata_headers mgr = []
      then (Inl (PyExc ''ValueError'' ''Pinata credentials not configured''), w)
      else
        (case pinata_pin_file env (pinata_headers mgr) file_path metadata w of
           (Inl e, w1) \<Rightarrow> (Inl e, w1)
         | (Inr ipfs_hash, w1) \<Rightarrow>
             (case verify_ipfs_content_with_retry env ipfs_hash 3 10 w1 of
                (verified, w2) \<Rightarrow> (Inr ipfs_hash, w2))))"

definition upload_to_web3_storage ::
  "'w storage \<Rightarrow> ipfs_manager \<Rightarrow> string \<Rightarrow> (string \<rightharpoonup> string) option \<Rightarrow> 'w
     \<Rightarrow> (py_exception + string) \<times> 'w" where
  "upload_to_web3_storage env mgr file_path metadata w =
     (case web3_storage_token mgr of
        None \<Rightarrow> (Inl (PyExc ''ValueError'' ''Web3.Storage token not configured''), w)
      | Some token \<Rightarrow>
          if token = []
          then (Inl (PyExc ''ValueError'' ''Web3.Storage token not configured''), w)
          else web3_storage_post env token file_path w)"

definition upload_to_local_ipfs ::
  "'w storage \<Rightarrow> ipfs_manager \<Rightarrow> string \<Rightarrow> (string \<rightharpoonup> string) option \<Rightarrow> 'w
     \<Rightarrow> (py_exception + string) \<times> 'w" where
  "upload_to_local_ipfs env mgr file_path metadata w =
     local_ipfs_add env (local_ipfs_url mgr) file_path w"

definition fallback_local_storage ::
  "'w storage \<Rightarrow> string \<Rightarrow> 'w \<Rightarrow> (py_exception + string) \<times> 'w" where
  "fallback_local_storage env file_path w =
     (case path_abspath env file_path w of
        Inl e \<Rightarrow> (Inl e, w)
      | Inr p \<Rightarrow> (Inr (''local://'' @ p), w))"

subsection \<open>upload\_to\_ipfs\<close>

text \<open>
  The \<open>try\<close> block of one iteration of the loop: \<open>Some (Inr h)\<close> is \<open>return h\<close>,
  \<open>Some (Inl e)\<close> an exception for the handler, and \<open>None\<close> a name that matches none
  of the four branches, where the block ends without doing anything.
\<close>

definition try_service ::
  "'w storage \<Rightarrow> ipfs_manager \<Rightarrow> string \<Rightarrow> string \<Rightarrow> (string \<rightharpoonup> string) option \<Rightarrow> 'w
     \<Rightarrow> (py_exception + string) option \<times> 'w" where
  "try_service env mgr service file_path metadata w =
     (if service = ''pinata''
      then (case upload_to_pinata env mgr file_path metadata w of (r, w1) \<Rightarrow> (Some r, w1))
      else if service = ''web3_storage''
      then (case upload_to_web3_storage env mgr file_path metadata w of (r, w1) \<Rightarrow> (Some r, w1))
      else if service = ''local_ipfs''
      then (case upload_to_local_ipfs env mgr file_path metadata w of (r, w1) \<Rightarrow> (Some r, w1))
      else if service = ''local_file''
      then (case fallback_local_storage env file_path w of (r, w1) \<Rightarrow> (Some r, w1))
      else (None, w))"

text \<open>
  The loop over the services that remain. Besides the result and the world it gives
  the services it tried, in order, each with what it did (the hash it returned or the
  exception it raised).
\<close>

fun upload_loop ::
  "'w storage \<Rightarrow> ipfs_manager \<Rightarrow> string \<Rightarrow> (string \<rightharpoonup> string) option \<Rightarrow> string list \<Rightarrow> 'w
     \<Rightarrow> (py_exception + string) \<times> 'w \<times> (string \<times> (py_exception + string)) list" where
  "upload_loop env mgr file_path metadata [] w =
     (Inl (PyExc ''Exception'' ''All IPFS upload methods failed''), w, [])"
| "upload_loop env mgr file_path metadata (service # rest) w =
     (case try_service env mgr service file_path metadata w of
        (Some (Inr h), w1) \<Rightarrow> (Inr h, w1, [(service, Inr h)])
      | (Some (Inl e), w1) \<Rightarrow>
          (case upload_loop env mgr file_path metadata rest w1 of
             (r, w2, tried) \<Rightarrow> (r, w2, (service, Inl e) # tried))
      | (None, w1) \<Rightarrow> upload_loop env mgr file_path metadata rest w1)"

definition upload_to_ipfs ::
  "'w storage \<Rightarrow> ipfs_manager \<Rightarrow> string \<Rightarrow> (string \<rightharpoonup> string) option \<Rightarrow> 'w
     \<Rightarrow> (py_exception + string) \<times> 'w \<times> (string \<times> (py_exception + string)) list" where
  "upload_to_ipfs env mgr file_path metadata w =
     (if \<not> path_exists env file_path w
      then (Inl (PyExc ''FileNotFoundError'' (''File not found: '' @ file_path)), w, [])
      else upload_loop env mgr file_path metadata (service_priority mgr) w)"

subsection \<open>Services to run the upload on\<close>

text \<open>
  A world is the list of files on disk. Pinata answers 503, no IPFS node runs on the
  machine when \<open>node_up\<close> is false, and the gateways answer 404.
\<close>

definition demo_storage :: "bool \<Rightarrow> (string list) storage" where
  "demo_storage node_up =
     \<lparr> path_exists = (\<lambda>p files. p \<in> set files),
       path_abspath = (\<lambda>p files. Inr (''/work/'' @ p)),
       pinata_pin_file = (\<lambda>headers p metadata files.
          (Inl (PyExc ''HTTPError'' ''503 Server Error''), files)),
       web3_storage_post = (\<lambda>token p files.
          (Inl (PyExc ''HTTPError'' ''401 Client Error''), files)),
       local_ipfs_add = (\<lambda>url p files.
          if node_up then (Inr ''QmYwAPJzv5CZsnA625s3Xf2nemtYgPpHdWEz79ojWnPbdG'', files)
          else (Inl (PyExc ''ConnectionError'' ''Connection refused''), files)),
       http_head = (\<lambda>url timeout files. (Inr 404, files)),
       storage_sleep = (\<lambda>secs files. files) \<rparr>"

definition pinata_config :: ipfs_config where
  "pinata_config =
     \<lparr> cfg_PINATA_API_KEY = Some ''test_key'', cfg_PINATA_API_SECRET = Some ''test_secret'',
       cfg_WEB3_STORAGE_TOKEN = None, cfg_LOCAL_IPFS_URL = None \<rparr>"


section \<open>complete\_filecoin\_agent.py and bounty\_system.py: the similarity threshold\<close>

subsection \<open>Data\<close>











subsection \<open>scan\_and\_report\_violations\<close>







subsection \<open>report\_infringement\_bounty\<close>






subsection \<open>validate\_infringement\<close>




subsection \<open>A scanner to run the agent on\<close>




section \<open>Properties of IPFSUtils\<close>

lemma split_acc_not_Nil: "split_acc sep cur s \<noteq> []"
  by (induction sep cur s rule: split_acc.induct) auto

lemma split_acc_no_sep:
  "p \<notin> set s \<Longrightarrow> split_acc (p # ps) cur s = [cur @ s]"
  by (induction s arbitrary: cur) auto

lemma split_acc_first_piece:
  "p \<notin> set cur \<Longrightarrow> split_acc [p] cur s = x # xs \<Longrightarrow> p \<notin> set x"
proof (induction s arbitrary: cur)
  case Nil
  then show ?case by simp
next
  case (Cons a s)
  show ?case
  proof (cases "a = p")
    case True
    with Cons.prems show ?thesis by simp
  next
    case False
    with Cons.prems have "split_acc [p] (cur @ [a]) s = x # xs" by simp
    moreover have "p \<notin> set (cur @ [a])"
      using False Cons.prems by simp
    ultimately show ?thesis
      using Cons.IH by blast
  qed
qed

lemma startswith_append: "startswith (p @ s) p"
  by (induction p) auto

lemma startswith_contains: "startswith s sub \<Longrightarrow> str_contains sub s"
  by (cases s; cases sub) auto

lemma str_contains_append: "str_contains sub (pre @ sub @ s)"
  by (induction pre) (auto simp: startswith_append startswith_contains)

lemma split_ipfs_io:
  "CHR ''/'' \<notin> set h \<Longrightarrow>
   str_split (''https://ipfs.io/ipfs/'' @ h) ''/ipfs/'' = [''https://ipfs.io'', h]"
  unfolding str_split_def by (simp add: split_acc_no_sep)

lemma split_pinata:
  "CHR ''/'' \<notin> set h \<Longrightarrow>
   str_split (''https://gateway.pinata.cloud/ipfs/'' @ h) ''/ipfs/''
     = [''https://gateway.pinata.cloud'', h]"
  unfolding str_split_def by (simp add: split_acc_no_sep)

lemma split_cloudflare:
  "CHR ''/'' \<notin> set h \<Longrightarrow>
   str_split (''https://cloudflare-ipfs.com/ipfs/'' @ h) ''/ipfs/''
     = [''https://cloudflare-ipfs.com'', h]"
  unfolding str_split_def by (simp add: split_acc_no_sep)

lemma split_dweb:
  "CHR ''/'' \<notin> set h \<Longrightarrow>
   str_split (''https://dweb.link/ipfs/'' @ h) ''/ipfs/'' = [''https://dweb.link'', h]"
  unfolding str_split_def by (simp add: split_acc_no_sep)

text \<open>A URL that splits into a gateway and a slash-free accepted hash gives the hash back.\<close>

lemma extract_from_gateway:
  assumes "str_split u ''/ipfs/'' = [pre, h]" and "str_contains ''/ipfs/'' u"
    and "validate_ipfs_hash h" and "CHR ''/'' \<notin> set h"
  shows "extract_cid_from_url u = Some h"
proof -
  have "str_split h ''/'' = [h]"
    using assms(4) by (simp add: str_split_def split_acc_no_sep)
  with assms(1,2,3) show ?thesis
    by (simp add: extract_cid_from_url_def)
qed

text \<open>Whatever \<open>extract_cid_from_url\<close> returns contains no slash.\<close>

lemma extract_cid_no_slash:
  assumes "extract_cid_from_url u = Some c"
  shows "CHR ''/'' \<notin> set c"
proof -
  from assms obtain p1 xs where "str_split p1 ''/'' = c # xs"
    by (auto simp: extract_cid_from_url_def split: if_splits list.splits)
  then show ?thesis
    using split_acc_first_piece [of "CHR ''/''" "[]" p1 c xs]
    by (simp add: str_split_def)
qed

lemma generate_ipfs_urls_gateways:
  assumes "validate_ipfs_hash h" and "\<not> startswith h ''local://''"
  shows "generate_ipfs_urls h =
      [''https://ipfs.io/ipfs/'' @ h, ''https://gateway.pinata.cloud/ipfs/'' @ h,
       ''https://cloudflare-ipfs.com/ipfs/'' @ h, ''https://dweb.link/ipfs/'' @ h]"
  using assms by (simp add: generate_ipfs_urls_def)

lemma gateway_urls_extract:
  assumes v: "validate_ipfs_hash h" and l: "\<not> startswith h ''local://''"
    and n: "CHR ''/'' \<notin> set h" and u: "u \<in> set (generate_ipfs_urls h)"
  shows "extract_cid_from_url u = Some h"
proof -
  have c: "str_contains ''/ipfs/'' (pre @ ''/ipfs/'' @ h)" for pre
    by (rule str_contains_append)
  have e1: "extract_cid_from_url (''https://ipfs.io/ipfs/'' @ h) = Some h"
    using c [of "''https://ipfs.io''"]
    by (intro extract_from_gateway [OF split_ipfs_io [OF n] _ v n]) simp
  have e2: "extract_cid_from_url (''https://gateway.pinata.cloud/ipfs/'' @ h) = Some h"
    using c [of "''https://gateway.pinata.cloud''"]
    by (intro extract_from_gateway [OF split_pinata [OF n] _ v n]) simp
  have e3: "extract_cid_from_url (''https://cloudflare-ipfs.com/ipfs/'' @ h) = Some h"
    using c [of "''https://cloudflare-ipfs.com''"]
    by (intro extract_from_gateway [OF split_cloudflare [OF n] _ v n]) simp
  have e4: "extract_cid_from_url (''https://dweb.link/ipfs/'' @ h) = Some h"
    using c [of "''https://dweb.link''"]
    by (intro extract_from_gateway [OF split_dweb [OF n] _ v n]) simp
  from u have "u = ''https://ipfs.io/ipfs/'' @ h \<or> u = ''https://gateway.pinata.cloud/ipfs/'' @ h
      \<or> u = ''https://cloudflare-ipfs.com/ipfs/'' @ h \<or> u = ''https://dweb.link/ipfs/'' @ h"
    unfolding generate_ipfs_urls_gateways [OF v l] by simp
  then show ?thesis
    using e1 e2 e3 e4 by blast
qed

text \<open>
  C9, as the code has it. For every hash \<open>validate_ipfs_hash\<close> accepts that does not
  start with \<open>local://\<close>, \<open>generate_ipfs_urls\<close> returns exactly 4 gateway URLs.
  \<open>extract_cid_from_url\<close> applied to any of them returns the original hash when the
  hash contains no \<open>/\<close>, and does not return it when the hash contains one: the
  extraction cuts the path at the first \<open>/\<close>. For every rejected hash
  \<open>generate_ipfs_urls\<close> returns the empty list.
\<close>

theorem generate_ipfs_urls_roundtrip:
  "(validate_ipfs_hash h \<and> \<not> startswith h ''local://'' \<longrightarrow>
      length (generate_ipfs_urls h) = 4
      \<and> (CHR ''/'' \<notin> set h \<longrightarrow>
           (\<forall>u \<in> set (generate_ipfs_urls h). extract_cid_from_url u = Some h))
      \<and> (CHR ''/'' \<in> set h \<longrightarrow>
           (\<forall>u \<in> set (generate_ipfs_urls h). extract_cid_from_url u \<noteq> Some h)))
   \<and> (\<not> validate_ipfs_hash h \<longrightarrow> generate_ipfs_urls h = [])"
proof -
  have "length (generate_ipfs_urls h) = 4"
    if "validate_ipfs_hash h" "\<not> startswith h ''local://''"
    using generate_ipfs_urls_gateways [OF that] by simp
  moreover have "extract_cid_from_url u \<noteq> Some h" if "CHR ''/'' \<in> set h" for u
    using extract_cid_no_slash [of u h] that by blast
  moreover have "generate_ipfs_urls h = []" if "\<not> validate_ipfs_hash h"
    using that by (simp add: generate_ipfs_urls_def)
  ultimately show ?thesis
    using gateway_urls_extract [of h] by blast
qed

theorem generate_ipfs_urls_roundtrip_witness:
  "validate_ipfs_hash ''QmYwAPJzv5CZsnA625s3Xf2nemtYgPpHdWEz79ojWnPbdG''
   \<and> \<not> startswith ''QmYwAPJzv5CZsnA625s3Xf2nemtYgPpHdWEz79ojWnPbdG'' ''local://''
   \<and> CHR ''/'' \<notin> set ''QmYwAPJzv5CZsnA625s3Xf2nemtYgPpHdWEz79ojWnPbdG''
   \<and> length (generate_ipfs_urls ''QmYwAPJzv5CZsnA625s3Xf2nemtYgPpHdWEz79ojWnPbdG'') = 4
   \<and> extract_cid_from_url
        (generate_ipfs_urls ''QmYwAPJzv5CZsnA625s3Xf2nemtYgPpHdWEz79ojWnPbdG'' ! 2)
       = Some ''QmYwAPJzv5CZsnA625s3Xf2nemtYgPpHdWEz79ojWnPbdG''
   \<and> \<not> validate_ipfs_hash ''invalid_hash'' \<and> generate_ipfs_urls ''invalid_hash'' = []"
proof -
  let ?h = "''QmYwAPJzv5CZsnA625s3Xf2nemtYgPpHdWEz79ojWnPbdG''"
  have v: "validate_ipfs_hash ?h" and l: "\<not> startswith ?h ''local://''"
    and n: "CHR ''/'' \<notin> set ?h"
    by (simp_all add: validate_ipfs_hash_def)
  have i: "\<not> validate_ipfs_hash ''invalid_hash''"
    by (simp add: validate_ipfs_hash_def)
  have m: "generate_ipfs_urls ?h ! 2 \<in> set (generate_ipfs_urls ?h)"
    unfolding generate_ipfs_urls_gateways [OF v l] by simp
  show ?thesis
    using v l n i m generate_ipfs_urls_roundtrip [of ?h]
      generate_ipfs_urls_roundtrip [of "''invalid_hash''"]
    by blast
qed

text \<open>
  The round trip of C9 as it was stated fails on an accepted hash that carries a path:
  the test suite's CID followed by \<open>/a\<close> is accepted, and the first gateway URL gives
  back the CID without the path.
\<close>

theorem generate_ipfs_urls_roundtrip_counterexample:
  "validate_ipfs_hash ''bafybeigdyrzt5sfp7udm7hu76uh7y26nf3efuylqabf3oclgtqy55fbzdi/a''
   \<and> \<not> startswith ''bafybeigdyrzt5sfp7udm7hu76uh7y26nf3efuylqabf3oclgtqy55fbzdi/a'' ''local://''
   \<and> generate_ipfs_urls ''bafybeigdyrzt5sfp7udm7hu76uh7y26nf3efuylqabf3oclgtqy55fbzdi/a'' ! 0
       = ''https://ipfs.io/ipfs/bafybeigdyrzt5sfp7udm7hu76uh7y26nf3efuylqabf3oclgtqy55fbzdi/a''
   \<and> extract_cid_from_url
        (generate_ipfs_urls ''bafybeigdyrzt5sfp7udm7hu76uh7y26nf3efuylqabf3oclgtqy55fbzdi/a'' ! 0)
       = Some ''bafybeigdyrzt5sfp7udm7hu76uh7y26nf3efuylqabf3oclgtqy55fbzdi''
   \<and> extract_cid_from_url
        (generate_ipfs_urls ''bafybeigdyrzt5sfp7udm7hu76uh7y26nf3efuylqabf3oclgtqy55fbzdi/a'' ! 0)
       \<noteq> Some ''bafybeigdyrzt5sfp7udm7hu76uh7y26nf3efuylqabf3oclgtqy55fbzdi/a''"
  by (simp add: validate_ipfs_hash_def generate_ipfs_urls_def extract_cid_from_url_def
      str_split_def)


section \<open>Properties of BlockchainUtils\<close>

subsection \<open>estimate\_total\_cost\<close>

lemma units_ether_gwei:
  "map_of units (str_lower ''ether'') = Some 18"
  "map_of units (str_lower ''gwei'') = Some 9"
  by (simp_all add: units_def str_lower_def lower_char_def)

lemma from_wei_in_range:
  assumes "0 \<le> number" and "number \<le> MAX_WEI"
  shows "from_wei number ''ether'' = Inr (of_int number / 10 ^ 18)"
    and "from_wei number ''gwei'' = Inr (of_int number / 10 ^ 9)"
  using assms by (auto simp: from_wei_def units_ether_gwei)

lemma from_wei_above_range:
  assumes "number > MAX_WEI"
  shows "from_wei number ''ether''
      = Inl (PyExc ''ValueError'' ''value must be between 1 and 2**256 - 1'')"
    and "from_wei number ''gwei''
      = Inl (PyExc ''ValueError'' ''value must be between 1 and 2**256 - 1'')"
proof -
  from assms have "number \<noteq> 0" by (auto simp: MAX_WEI_def)
  with assms show
    "from_wei number ''ether''
      = Inl (PyExc ''ValueError'' ''value must be between 1 and 2**256 - 1'')"
    "from_wei number ''gwei''
      = Inl (PyExc ''ValueError'' ''value must be between 1 and 2**256 - 1'')"
    by (simp_all add: from_wei_def units_ether_gwei)
qed

text \<open>
  C8, as the code has it. For all non-negative integers \<open>gas_used\<close> and \<open>gas_price\<close>
  with \<open>gas_used * gas_price\<close> and \<open>gas_price\<close> at most \<open>2 ** 256 - 1\<close>,
  \<open>estimate_total_cost\<close> returns, \<open>total_cost_wei\<close> is the exact product
  \<open>gas_used * gas_price\<close>, and \<open>total_cost_tfil\<close> equals \<open>total_cost_fil\<close> (the float
  of the product divided by \<open>10 ** 18\<close>). When the product or the price is above
  \<open>2 ** 256 - 1\<close>, \<open>Web3.from_wei\<close> raises ValueError and \<open>estimate_total_cost\<close> raises
  it instead of returning.
\<close>

theorem estimate_total_cost_exact:
  assumes "0 \<le> gas_used" and "0 \<le> gas_price"
  shows "(gas_used * gas_price \<le> MAX_WEI \<and> gas_price \<le> MAX_WEI \<longrightarrow>
           (\<exists>c. estimate_total_cost from_wei to_float gas_used gas_price = Inr c
              \<and> total_cost_wei c = gas_used * gas_price
              \<and> total_cost_tfil c = total_cost_fil c
              \<and> total_cost_fil c = to_float (of_int (gas_used * gas_price) / 10 ^ 18)))
    \<and> (gas_used * gas_price > MAX_WEI \<or> gas_price > MAX_WEI \<longrightarrow>
           (\<exists>e. estimate_total_cost from_wei to_float gas_used gas_price = Inl e
              \<and> exc_class e = ''ValueError''))"
proof -
  have p: "0 \<le> gas_used * gas_price"
    using assms by simp
  have 1: "\<exists>c. estimate_total_cost from_wei to_float gas_used gas_price = Inr c
              \<and> total_cost_wei c = gas_used * gas_price
              \<and> total_cost_tfil c = total_cost_fil c
              \<and> total_cost_fil c = to_float (of_int (gas_used * gas_price) / 10 ^ 18)"
    if "gas_used * gas_price \<le> MAX_WEI" "gas_price \<le> MAX_WEI"
    using from_wei_in_range(1) [OF p that(1)] from_wei_in_range(2) [OF assms(2) that(2)]
    by (simp add: estimate_total_cost_def Let_def)
  have 2: "\<exists>e. estimate_total_cost from_wei to_float gas_used gas_price = Inl e
              \<and> exc_class e = ''ValueError''"
    if "gas_used * gas_price > MAX_WEI"
    using from_wei_above_range(1) [OF that]
    by (simp add: estimate_total_cost_def Let_def)
  have 3: "\<exists>e. estimate_total_cost from_wei to_float gas_used gas_price = Inl e
              \<and> exc_class e = ''ValueError''"
    if "\<not> gas_used * gas_price > MAX_WEI" "gas_price > MAX_WEI"
  proof -
    from that(1) have "gas_used * gas_price \<le> MAX_WEI" by simp
    from from_wei_in_range(1) [OF p this] from_wei_above_range(2) [OF that(2)]
    show ?thesis
      by (simp add: estimate_total_cost_def Let_def)
  qed
  from 1 2 3 show ?thesis by blast
qed

theorem estimate_total_cost_exact_witness:
  "(0::int) \<le> 21000 \<and> (0::int) \<le> 1000000000
   \<and> (21000::int) * 1000000000 \<le> MAX_WEI \<and> (1000000000::int) \<le> MAX_WEI
   \<and> (\<exists>c. estimate_total_cost from_wei (\<lambda>d. d) 21000 1000000000 = Inr c
          \<and> total_cost_wei c = 21000 * 1000000000
          \<and> total_cost_tfil c = total_cost_fil c
          \<and> total_cost_fil c = of_int (21000 * 1000000000) / 10 ^ 18)"
proof -
  have a: "(0::int) \<le> 21000" and b: "(0::int) \<le> 1000000000"
    by simp_all
  have c: "(21000::int) * 1000000000 \<le> MAX_WEI" and d: "(1000000000::int) \<le> MAX_WEI"
    by (simp_all add: MAX_WEI_def)
  from estimate_total_cost_exact [OF a b, of "\<lambda>d. d"] a b c d show ?thesis
    by blast
qed

text \<open>
  C8 as it was stated fails on non-negative integers whose product is above
  \<open>2 ** 256 - 1\<close>: at \<open>gas_used = gas_price = 2 ** 128\<close> the function raises the
  ValueError of \<open>Web3.from_wei\<close> and returns no dict.
\<close>

theorem estimate_total_cost_exact_counterexample:
  "(0::int) \<le> 2 ^ 128
   \<and> estimate_total_cost from_wei real_of_rat (2 ^ 128) (2 ^ 128)
       = Inl (PyExc ''ValueError'' ''value must be between 1 and 2**256 - 1'')"
proof -
  have "(2::int) ^ 128 * 2 ^ 128 > MAX_WEI"
    by (simp add: MAX_WEI_def)
  from from_wei_above_range(1) [OF this] show ?thesis
    by (simp add: estimate_total_cost_def Let_def)
qed

subsection \<open>retry\_transaction\<close>

lemma wait_length_finite:
  assumes "k < 1024" and "\<bar>d\<bar> * 2 ^ k < 2 ^ 1024"
  shows "wait_length (Finite d) (int k) = Inr (Finite (d * 2 ^ k))"
proof -
  have "(2::int) ^ k < 2 ^ 1024"
    using assms(1) by (intro power_strict_increasing) simp_all
  then have i: "int_to_float (2 ^ k) = Inr (2 ^ k)"
    by (simp add: int_to_float_def)
  have "\<bar>d * 2 ^ k\<bar> = \<bar>d\<bar> * 2 ^ k"
    by (simp add: abs_mult)
  with assms(2) have "\<bar>d * 2 ^ k\<bar> < 2 ^ 1024"
    by simp
  then have "d * 2 ^ k < 2 ^ 1024" and "- (2 ^ 1024) < d * 2 ^ k"
    by linarith+
  then have "round_float (d * 2 ^ k) = Finite (d * 2 ^ k)"
    by (simp add: round_float_def)
  with i show ?thesis
    by (simp add: wait_length_def)
qed

lemma retry_summary_returned:
  assumes "a < n"
  shows "retry_summary sleep delay a n (Inr (Some v)) [RetryCall (Inr v)]"
  using assms unfolding retry_summary_def by auto

lemma retry_summary_last_failed:
  "retry_summary sleep delay a (Suc a) (Inl e) [RetryCall (Inl e)]"
  unfolding retry_summary_def by auto

lemma retry_summary_wait_raised:
  assumes "Suc a < n"
    and "wait_length delay (int a) = Inl e2
         \<or> (\<exists>x w0 w1. wait_length delay (int a) = Inr x \<and> sleep x w0 = (Inl e2, w1))"
  shows "retry_summary sleep delay a n (Inl e2) [RetryCall (Inl e), RetryWaitRaised e2]"
  using assms unfolding retry_summary_def by auto

lemma retry_summary_continue:
  assumes s: "retry_summary sleep delay (Suc a) n r evs2" and lt: "Suc a < n"
    and x: "wait_length delay (int a) = Inr x"
  shows "retry_summary sleep delay a n r (RetryCall (Inl e) # RetrySleep x # evs2)"
proof -
  let ?cs = "retry_calls evs2" and ?ws = "retry_sleeps evs2" and ?rs = "retry_raised evs2"
  from s have
    s1: "length ?cs \<le> n - Suc a" and
    s2: "evs2 = interleave ?cs ?ws @ map RetryWaitRaised ?rs" and
    s3: "length ?ws = length ?cs - 1" and
    s4: "map Inr ?ws = map (\<lambda>k. wait_length delay (int k)) [Suc a..<Suc a + length ?ws]" and
    s5: "\<forall>c \<in> set (butlast ?cs). isl c" and
    s6: "length ?rs \<le> 1" and
    s7: "\<forall>e. ?rs = [e] \<longrightarrow>
           ?cs \<noteq> [] \<and> isl (last ?cs) \<and> Suc a + length ?cs < n
           \<and> (wait_length delay (int (Suc a + length ?cs - 1)) = Inl e
                \<or> (\<exists>x w0 w1. wait_length delay (int (Suc a + length ?cs - 1)) = Inr x
                       \<and> sleep x w0 = (Inl e, w1)))" and
    s8: "\<forall>e. r = Inl e \<longleftrightarrow>
           ?rs = [e]
           \<or> (?rs = [] \<and> Suc a < n \<and> length ?cs = n - Suc a \<and> last ?cs = Inl e)" and
    s9: "\<forall>v. r = Inr (Some v) \<longleftrightarrow> ?cs \<noteq> [] \<and> last ?cs = Inr v" and
    s10: "r = Inr None \<longleftrightarrow> n \<le> Suc a"
    unfolding retry_summary_def by blast+
  have ne: "?cs \<noteq> []"
  proof (cases r)
    case (Inl e')
    with s8 have "?rs = [e'] \<or> length ?cs = n - Suc a" by blast
    with s7 lt show ?thesis by auto
  next
    case (Inr opt)
    show ?thesis
    proof (cases opt)
      case None
      with Inr s10 lt show ?thesis by simp
    next
      case (Some v)
      with Inr s9 show ?thesis by blast
    qed
  qed
  then obtain c' cs' where cs: "?cs = c' # cs'"
    by (cases ?cs) auto
  let ?evs = "RetryCall (Inl e) # RetrySleep x # evs2"
  have calls: "retry_calls ?evs = Inl e # ?cs"
    and sleeps: "retry_sleeps ?evs = x # ?ws"
    and raised: "retry_raised ?evs = ?rs"
    by simp_all
  have g1: "length (retry_calls ?evs) \<le> n - a"
    using s1 lt unfolding calls by simp
  have "interleave (Inl e # ?cs) (x # ?ws)
      = RetryCall (Inl e) # RetrySleep x # interleave ?cs ?ws"
    unfolding cs by simp
  with s2 have g2: "?evs = interleave (retry_calls ?evs) (retry_sleeps ?evs)
      @ map RetryWaitRaised (retry_raised ?evs)"
    unfolding calls sleeps raised by simp
  have g3: "length (retry_sleeps ?evs) = length (retry_calls ?evs) - 1"
    unfolding calls sleeps using s3 ne by (simp add: cs)
  have e1: "a + length (retry_sleeps ?evs) = Suc a + length ?ws"
    unfolding sleeps by simp
  have "a < Suc a + length ?ws" by simp
  then have "[a..<Suc a + length ?ws] = a # [Suc a..<Suc a + length ?ws]"
    by (rule upt_conv_Cons)
  then have u: "[a..<a + length (retry_sleeps ?evs)] = a # [Suc a..<Suc a + length ?ws]"
    unfolding e1 .
  have g4: "map Inr (retry_sleeps ?evs)
      = map (\<lambda>k. wait_length delay (int k)) [a..<a + length (retry_sleeps ?evs)]"
    unfolding u unfolding sleeps using s4 x by simp
  have g5: "\<forall>c \<in> set (butlast (retry_calls ?evs)). isl c"
    unfolding calls using s5 ne by simp
  have g6: "length (retry_raised ?evs) \<le> 1"
    unfolding raised by (rule s6)
  have idx: "a + length (retry_calls ?evs) - 1 = Suc a + length ?cs - 1"
    unfolding calls by simp
  have g7: "\<forall>e. retry_raised ?evs = [e] \<longrightarrow>
           retry_calls ?evs \<noteq> [] \<and> isl (last (retry_calls ?evs))
           \<and> a + length (retry_calls ?evs) < n
           \<and> (wait_length delay (int (a + length (retry_calls ?evs) - 1)) = Inl e
                \<or> (\<exists>x w0 w1. wait_length delay (int (a + length (retry_calls ?evs) - 1)) = Inr x
                       \<and> sleep x w0 = (Inl e, w1)))"
    unfolding idx unfolding calls raised using s7 ne by simp
  have len: "length (retry_calls ?evs) = n - a \<longleftrightarrow> length ?cs = n - Suc a"
    unfolding calls using lt by auto
  have lst: "last (retry_calls ?evs) = last ?cs"
    unfolding calls using ne by simp
  have an: "a < n" using lt by simp
  have g8: "\<forall>e. r = Inl e \<longleftrightarrow>
           retry_raised ?evs = [e]
           \<or> (retry_raised ?evs = [] \<and> a < n \<and> length (retry_calls ?evs) = n - a
                \<and> last (retry_calls ?evs) = Inl e)"
    unfolding len lst raised using s8 lt an by blast
  have g9: "\<forall>v. r = Inr (Some v) \<longleftrightarrow>
           retry_calls ?evs \<noteq> [] \<and> last (retry_calls ?evs) = Inr v"
    unfolding lst using s9 ne by (simp add: calls)
  have g10: "r = Inr None \<longleftrightarrow> n \<le> a"
    using s10 lt by simp
  have g11: "n \<le> a \<longrightarrow> ?evs = []"
    using lt by simp
  from g1 g2 g3 g4 g5 g6 g7 g8 g9 g10 g11 show ?thesis
    unfolding retry_summary_def by blast
qed

text \<open>The loop from attempt \<open>a\<close> on, for \<open>max_retries = n\<close>.\<close>

lemma retry_loop_summary:
  assumes "retry_loop func sleep (int n) delay (map int [a..<n]) w = (r, w', evs)"
  shows "retry_summary sleep delay a n r evs"
  using assms
proof (induction "n - a" arbitrary: a w r w' evs)
  case 0
  then have "r = Inr None" "evs = []" "n \<le> a" by auto
  then show ?case
    unfolding retry_summary_def by simp
next
  case (Suc k)
  then have an: "a < n" and k: "k = n - Suc a" by simp_all
  then have l: "map int [a..<n] = int a # map int [Suc a..<n]"
    by (simp add: upt_conv_Cons)
  obtain o1 w1 where f: "func w = (o1, w1)" by (cases "func w")
  show ?case
  proof (cases o1)
    case (Inr v)
    with Suc.prems l f have "r = Inr (Some v)" "evs = [RetryCall (Inr v)]"
      by auto
    with an show ?thesis
      by (simp add: retry_summary_returned)
  next
    case (Inl e)
    show ?thesis
    proof (cases "Suc a = n")
      case True
      then have "int a = int n - 1" by auto
      with Suc.prems l f Inl have "r = Inl e" "evs = [RetryCall (Inl e)]"
        by auto
      with True retry_summary_last_failed [of sleep delay a e] show ?thesis
        by simp
    next
      case False
      with an have lt: "Suc a < n" by simp
      have ne: "int a \<noteq> int n - 1" using False by linarith
      show ?thesis
      proof (cases "wait_length delay (int a)")
        case wl: (Inl e2)
        with Suc.prems l f Inl ne have
          "r = Inl e2" "evs = [RetryCall (Inl e), RetryWaitRaised e2]"
          by auto
        with retry_summary_wait_raised [OF lt, of delay e2 sleep e] wl show ?thesis
          by simp
      next
        case wl: (Inr x)
        obtain o2 w2 where sl: "sleep x w1 = (o2, w2)" by (cases "sleep x w1")
        show ?thesis
        proof (cases o2)
          case sr: (Inl e2)
          with Suc.prems l f Inl ne wl sl have
            "r = Inl e2" "evs = [RetryCall (Inl e), RetryWaitRaised e2]"
            by auto
          moreover have "\<exists>x w0 w1. wait_length delay (int a) = Inr x
              \<and> sleep x w0 = (Inl e2, w1)"
            using wl sl sr by blast
          ultimately show ?thesis
            using retry_summary_wait_raised [OF lt, of delay e2 sleep e] by simp
        next
          case sr: (Inr u)
          obtain r2 w3 evs2 where
            rec: "retry_loop func sleep (int n) delay (map int [Suc a..<n]) w2
                    = (r2, w3, evs2)"
            by (metis prod_cases3)
          from Suc.prems l f Inl ne wl sl sr rec
          have res: "r = r2" "evs = RetryCall (Inl e) # RetrySleep x # evs2"
            by simp_all
          from retry_summary_continue [OF Suc.hyps(1) [OF k rec] lt wl]
          show ?thesis
            unfolding res .
        qed
      qed
    qed
  qed
qed

text \<open>
  C6, as the code has it. \<open>retry_transaction\<close> is a bounded loop with exponential
  backoff. It invokes the supplied function at most \<open>max_retries\<close> times; calls and
  waits come in turn; the wait after the failed attempt number \<open>k\<close> (counted from 0)
  is \<open>time.sleep(delay * 2 ** k)\<close>, which for a finite delay within the range of a
  float is the exact product. All calls but the last one failed. The helper raises
  either the exception of a wait (of the product, or of \<open>time.sleep\<close>), which leaves
  it at once after a failed attempt that is not the last, or, when \<open>max_retries \<ge> 1\<close>,
  all attempts failed and no wait raised, the exception of the final attempt. When an
  attempt succeeds its return value is returned unchanged, and that attempt is the
  last. With \<open>max_retries \<le> 0\<close> nothing is invoked and \<open>None\<close> is returned.
\<close>

theorem retry_transaction_backoff:
  assumes "retry_transaction func sleep max_retries delay w = (r, w', evs)"
  shows "length (retry_calls evs) \<le> nat max_retries
    \<and> evs = interleave (retry_calls evs) (retry_sleeps evs)
             @ map RetryWaitRaised (retry_raised evs)
    \<and> length (retry_sleeps evs) = length (retry_calls evs) - 1
    \<and> map Inr (retry_sleeps evs)
         = map (\<lambda>k. wait_length delay (int k)) [0..<length (retry_sleeps evs)]
    \<and> (\<forall>d k. delay = Finite d \<and> k < 1024 \<and> \<bar>d\<bar> * 2 ^ k < 2 ^ 1024 \<longrightarrow>
          wait_length delay (int k) = Inr (Finite (d * 2 ^ k)))
    \<and> (\<forall>c \<in> set (butlast (retry_calls evs)). isl c)
    \<and> length (retry_raised evs) \<le> 1
    \<and> (\<forall>e. retry_raised evs = [e] \<longrightarrow>
          retry_calls evs \<noteq> [] \<and> isl (last (retry_calls evs))
          \<and> length (retry_calls evs) < nat max_retries
          \<and> (wait_length delay (int (length (retry_calls evs) - 1)) = Inl e
               \<or> (\<exists>x w0 w1. wait_length delay (int (length (retry_calls evs) - 1)) = Inr x
                      \<and> sleep x w0 = (Inl e, w1))))
    \<and> (\<forall>e. r = Inl e \<longleftrightarrow>
          retry_raised evs = [e]
          \<or> (retry_raised evs = [] \<and> 0 < max_retries
               \<and> length (retry_calls evs) = nat max_retries
               \<and> last (retry_calls evs) = Inl e))
    \<and> (\<forall>v. r = Inr (Some v) \<longleftrightarrow>
          retry_calls evs \<noteq> [] \<and> last (retry_calls evs) = Inr v)
    \<and> (r = Inr None \<longleftrightarrow> max_retries \<le> 0)
    \<and> (max_retries \<le> 0 \<longrightarrow> evs = [])"
proof -
  have s: "retry_summary sleep delay 0 (nat max_retries) r evs"
  proof (cases "max_retries \<le> 0")
    case True
    then have "nat max_retries = 0" by simp
    with assms have "r = Inr None" "evs = []"
      by (simp_all add: retry_transaction_def py_range_def)
    with \<open>nat max_retries = 0\<close> show ?thesis
      unfolding retry_summary_def by simp
  next
    case False
    then have m: "int (nat max_retries) = max_retries" by simp
    from assms have
      "retry_loop func sleep (int (nat max_retries)) delay (map int [0..<nat max_retries]) w
         = (r, w', evs)"
      unfolding retry_transaction_def py_range_def m .
    then show ?thesis by (rule retry_loop_summary)
  qed
  have z: "0 < max_retries \<longleftrightarrow> 0 < nat max_retries"
    "max_retries \<le> 0 \<longleftrightarrow> nat max_retries \<le> 0"
    by simp_all
  have f: "\<forall>d k. delay = Finite d \<and> k < 1024 \<and> \<bar>d\<bar> * 2 ^ k < 2 ^ 1024 \<longrightarrow>
          wait_length delay (int k) = Inr (Finite (d * 2 ^ k))"
    using wait_length_finite by blast
  from s have "length (retry_calls evs) \<le> nat max_retries
    \<and> evs = interleave (retry_calls evs) (retry_sleeps evs)
             @ map RetryWaitRaised (retry_raised evs)
    \<and> length (retry_sleeps evs) = length (retry_calls evs) - 1
    \<and> map Inr (retry_sleeps evs)
         = map (\<lambda>k. wait_length delay (int k)) [0..<length (retry_sleeps evs)]
    \<and> (\<forall>c \<in> set (butlast (retry_calls evs)). isl c)
    \<and> length (retry_raised evs) \<le> 1
    \<and> (\<forall>e. retry_raised evs = [e] \<longrightarrow>
          retry_calls evs \<noteq> [] \<and> isl (last (retry_calls evs))
          \<and> length (retry_calls evs) < nat max_retries
          \<and> (wait_length delay (int (length (retry_calls evs) - 1)) = Inl e
               \<or> (\<exists>x w0 w1. wait_length delay (int (length (retry_calls evs) - 1)) = Inr x
                      \<and> sleep x w0 = (Inl e, w1))))
    \<and> (\<forall>e. r = Inl e \<longleftrightarrow>
          retry_raised evs = [e]
          \<or> (retry_raised evs = [] \<and> 0 < nat max_retries
               \<and> length (retry_calls evs) = nat max_retries
               \<and> last (retry_calls evs) = Inl e))
    \<and> (\<forall>v. r = Inr (Some v) \<longleftrightarrow>
          retry_calls evs \<noteq> [] \<and> last (retry_calls evs) = Inr v)
    \<and> (r = Inr None \<longleftrightarrow> nat max_retries \<le> 0)
    \<and> (nat max_retries \<le> 0 \<longrightarrow> evs = [])"
    unfolding retry_summary_def by simp
  with f show ?thesis
    unfolding z by blast
qed

theorem retry_transaction_backoff_witness:
  "retry_transaction fails_twice platform_sleep 3 (Finite 2) 0
     = (Inr (Some 42), 3,
        [RetryCall (Inl (PyExc ''Exception'' ''execution reverted'')), RetrySleep (Finite 2),
         RetryCall (Inl (PyExc ''Exception'' ''execution reverted'')), RetrySleep (Finite 4),
         RetryCall (Inr 42)])
   \<and> length (retry_calls
        [RetryCall (Inl (PyExc ''Exception'' ''execution reverted'')), RetrySleep (Finite 2),
         RetryCall (Inl (PyExc ''Exception'' ''execution reverted'')), RetrySleep (Finite 4),
         RetryCall (Inr (42::int))]) \<le> nat 3
   \<and> retry_transaction always_fails platform_sleep 3 (Finite 10000000000) 0
     = (Inl (PyExc ''OverflowError'' ''timestamp out of range for platform time_t''), 1,
        [RetryCall (Inl (PyExc ''Exception'' ''execution reverted'')),
         RetryWaitRaised
           (PyExc ''OverflowError'' ''timestamp out of range for platform time_t'')])"
proof -
  have w0: "wait_length (Finite d) 0 = Inr (Finite d)" if "\<bar>d\<bar> < 2 ^ 1024" for d
    using wait_length_finite [of 0 d] that by simp
  have w1: "wait_length (Finite 2) 1 = Inr (Finite 4)"
    using wait_length_finite [of 1 2] by simp
  have run: "retry_transaction fails_twice platform_sleep 3 (Finite 2) 0
     = (Inr (Some 42), 3,
        [RetryCall (Inl (PyExc ''Exception'' ''execution reverted'')), RetrySleep (Finite 2),
         RetryCall (Inl (PyExc ''Exception'' ''execution reverted'')), RetrySleep (Finite 4),
         RetryCall (Inr 42)])"
    by (simp add: retry_transaction_def py_range_def upt_conv_Cons fails_twice_def
        platform_sleep_def w0 w1)
  have big: "retry_transaction always_fails platform_sleep 3 (Finite 10000000000) 0
     = (Inl (PyExc ''OverflowError'' ''timestamp out of range for platform time_t''), 1,
        [RetryCall (Inl (PyExc ''Exception'' ''execution reverted'')),
         RetryWaitRaised
           (PyExc ''OverflowError'' ''timestamp out of range for platform time_t'')])"
    by (simp add: retry_transaction_def py_range_def upt_conv_Cons always_fails_def
        platform_sleep_def w0)
  from retry_transaction_backoff [OF run] run big show ?thesis by blast
qed

text \<open>
  The wait of C6 as it was stated is not fixed: with the default \<open>max_retries = 3\<close>,
  \<open>delay = 2.0\<close> and a function that fails every time, the helper waits 2 and then 4
  seconds, and raises the last exception.
\<close>

theorem retry_transaction_fixed_delay_counterexample:
  "retry_transaction always_fails platform_sleep 3 (Finite 2) 0
     = (Inl (PyExc ''Exception'' ''execution reverted''), 3,
        [RetryCall (Inl (PyExc ''Exception'' ''execution reverted'')), RetrySleep (Finite 2),
         RetryCall (Inl (PyExc ''Exception'' ''execution reverted'')), RetrySleep (Finite 4),
         RetryCall (Inl (PyExc ''Exception'' ''execution reverted''))])
   \<and> retry_sleeps (snd (snd (retry_transaction always_fails platform_sleep 3 (Finite 2) 0)))
       = [Finite 2, Finite 4]
   \<and> Finite 2 \<noteq> Finite 4"
proof -
  have w0: "wait_length (Finite 2) 0 = Inr (Finite 2)"
    using wait_length_finite [of 0 2] by simp
  have w1: "wait_length (Finite 2) 1 = Inr (Finite 4)"
    using wait_length_finite [of 1 2] by simp
  show ?thesis
    by (simp add: retry_transaction_def py_range_def upt_conv_Cons always_fails_def
        platform_sleep_def w0 w1)
qed


section \<open>Properties of FilecoinContractInterface\<close>

subsection \<open>Histories\<close>

lemma receipts_append: "receipts (xs @ ys) = receipts xs @ receipts ys"
  by (induction xs rule: receipts.induct) simp_all

lemma attempts_append: "attempts (xs @ ys) = attempts xs @ attempts ys"
  by (induction xs rule: attempts.induct) simp_all

lemma builds_append: "builds (xs @ ys) = builds xs @ builds ys"
  by (induction xs rule: builds.induct) simp_all

lemma node_queries_append: "node_queries (xs @ ys) = node_queries xs @ node_queries ys"
  by (induction xs rule: node_queries.induct) simp_all

lemma receipts_mem: "st \<in> set (receipts evs) \<Longrightarrow> Receipt st \<in> set evs"
  by (induction evs rule: receipts.induct) auto

lemma called_fields:
  "account (called ev w s) = account s"
  "private_key (called ev w s) = private_key s"
  "nonce_cache (called ev w s) = nonce_cache s"
  "last_nonce_update (called ev w s) = last_nonce_update s"
  "world (called ev w s) = w"
  "history (called ev w s) = history s @ [ev]"
  by (simp_all add: called_def)

lemma mark_fields:
  "account (mark ev s) = account s"
  "private_key (mark ev s) = private_key s"
  "nonce_cache (mark ev s) = nonce_cache s"
  "last_nonce_update (mark ev s) = last_nonce_update s"
  "world (mark ev s) = world s"
  "history (mark ev s) = history s @ [ev]"
  by (simp_all add: mark_def)

lemma increment_nonce_fields:
  "account (increment_nonce s) = account s"
  "private_key (increment_nonce s) = private_key s"
  "world (increment_nonce s) = world s"
  "history (increment_nonce s) = history s"
  "nonce_cache (increment_nonce s) = map_option (\<lambda>n. n + 1) (nonce_cache s)"
  by (simp_all add: increment_nonce_def split: option.splits)

lemma events_since_append:
  "history s' = history s @ evs \<Longrightarrow> events_since s s' = evs"
  by (simp add: events_since_def)

subsection \<open>The nonce cache\<close>

text \<open>A refresh asks the node and nothing else; a nonce it returns is in the cache.\<close>

lemma refresh_nonce_run:
  assumes "refresh_nonce w3 t s = (r, s')"
  shows "\<exists>evs. history s' = history s @ evs
    \<and> receipts evs = [] \<and> attempts evs = [] \<and> builds evs = []
    \<and> count_list evs SendRaw = 0
    \<and> account s' = account s \<and> private_key s' = private_key s
    \<and> (\<forall>n. r = Inr n \<longrightarrow> nonce_cache s' = Some n)"
proof (cases "account s")
  case None
  with assms show ?thesis
    by (intro exI [of _ "[]"]) (auto simp: refresh_nonce_def)
next
  case (Some address)
  obtain r1 w1 where p: "get_transaction_count w3 address ''pending'' (world s) = (r1, w1)"
    by (cases "get_transaction_count w3 address ''pending'' (world s)")
  show ?thesis
  proof (cases r1)
    case (Inr n)
    with assms Some p show ?thesis
      by (intro exI [of _ "[GetTransactionCount ''pending'']"])
         (auto simp: refresh_nonce_def called_def)
  next
    case (Inl e)
    obtain r2 w2 where l: "get_transaction_count w3 address ''latest'' w1 = (r2, w2)"
      by (cases "get_transaction_count w3 address ''latest'' w1")
    from assms Some p Inl l show ?thesis
      by (intro exI [of _ "[GetTransactionCount ''pending'', GetTransactionCount ''latest'']"])
         (cases r2; auto simp: refresh_nonce_def called_def Let_def)
  qed
qed

lemma get_nonce_run:
  assumes "get_nonce w3 force s = (r, s')"
  shows "\<exists>evs. history s' = history s @ evs
    \<and> receipts evs = [] \<and> attempts evs = [] \<and> builds evs = []
    \<and> count_list evs SendRaw = 0
    \<and> account s' = account s \<and> private_key s' = private_key s
    \<and> (\<forall>n. r = Inr n \<longrightarrow> nonce_cache s' = Some n)"
proof (cases "get_nonce w3 force s = refresh_nonce w3 (time_time w3 (world s)) s")
  case True
  with assms refresh_nonce_run [of w3 "time_time w3 (world s)" s r s'] show ?thesis
    by simp
next
  case False
  then obtain cached where "nonce_cache s = Some cached" "get_nonce w3 force s = (Inr cached, s)"
    by (auto simp: get_nonce_def Let_def split: option.splits if_splits)
  with assms show ?thesis
    by (intro exI [of _ "[]"]) auto
qed

subsection \<open>One attempt\<close>

lemma send_attempt_run:
  assumes "send_attempt w3 b a s = (r, s')"
  shows "\<exists>evs. history s' = history s @ evs
    \<and> attempts evs = [] \<and> length (builds evs) \<le> 1 \<and> count_list evs SendRaw \<le> 1
    \<and> account s' = account s \<and> private_key s' = private_key s
    \<and> (\<exists>r0 s1. get_nonce w3 (a > 0) s = (r0, s1)
          \<and> node_queries evs = node_queries (events_since s s1)
          \<and> (\<forall>n \<in> set (builds evs). r0 = Inr n))
    \<and> (case r of
          Inl e \<Rightarrow> receipts evs = []
        | Inr (Success ok) \<Rightarrow>
            receipts evs = [1] \<and> last evs = Receipt 1
            \<and> (\<exists>n. builds evs = [n] \<and> nonce_cache s' = Some (n + 1))
        | Inr (Failure msg) \<Rightarrow>
            msg = ''Transaction failed (status 0)''
            \<and> (\<exists>st. st \<noteq> 1 \<and> receipts evs = [st] \<and> last evs = Receipt st))"
proof -
  obtain r0 s1 where g: "get_nonce w3 (a > 0) s = (r0, s1)"
    by (cases "get_nonce w3 (a > 0) s")
  from get_nonce_run [OF g] obtain evs0 where
    h: "history s1 = history s @ evs0" and
    e0: "receipts evs0 = []" "attempts evs0 = []" "builds evs0 = []"
      "count_list evs0 SendRaw = 0" and
    f: "account s1 = account s" "private_key s1 = private_key s" and
    c: "\<forall>n. r0 = Inr n \<longrightarrow> nonce_cache s1 = Some n"
    by blast
  note q = events_since_append [OF h]
  show ?thesis
  proof (cases r0)
    case (Inl e)
    with assms g h e0 f q show ?thesis
      by (intro exI [of _ evs0]) (auto simp: send_attempt_def)
  next
    case (Inr nonce)
    with c have cache: "nonce_cache s1 = Some nonce" by simp
    obtain rb w2 where bb: "b nonce (world s1) = (rb, w2)"
      by (cases "b nonce (world s1)")
    show ?thesis
    proof (cases rb)
      case (Inl e)
      with assms g Inr bb h e0 f q show ?thesis
        by (intro exI [of _ "evs0 @ [Build nonce]"])
           (auto simp: send_attempt_def called_def receipts_append attempts_append
              builds_append node_queries_append)
    next
      case tx: (Inr transaction)
      show ?thesis
      proof (cases "sign_transaction w3 transaction (private_key s1)")
        case (Inl e)
        with assms g Inr bb tx h e0 f q show ?thesis
          by (intro exI [of _ "evs0 @ [Build nonce, Sign]"])
             (auto simp: send_attempt_def called_def mark_def Let_def receipts_append
                attempts_append builds_append node_queries_append)
      next
        case raw: (Inr raw)
        obtain rs w3a where ss: "send_raw_transaction w3 raw w2 = (rs, w3a)"
          by (cases "send_raw_transaction w3 raw w2")
        show ?thesis
        proof (cases rs)
          case (Inl e)
          with assms g Inr bb tx raw ss h e0 f q show ?thesis
            by (intro exI [of _ "evs0 @ [Build nonce, Sign, SendRaw]"])
               (auto simp: send_attempt_def called_def mark_def Let_def receipts_append
                  attempts_append builds_append node_queries_append)
        next
          case txh: (Inr txh)
          obtain rw w4 where ww: "wait_for_transaction_receipt w3 txh 300 w3a = (rw, w4)"
            by (cases "wait_for_transaction_receipt w3 txh 300 w3a")
          show ?thesis
          proof (cases rw)
            case (Inl e)
            with assms g Inr bb tx raw ss txh ww h e0 f q show ?thesis
              by (intro exI [of _ "evs0 @ [Build nonce, Sign, SendRaw]"])
                 (auto simp: send_attempt_def called_def mark_def Let_def receipts_append
                    attempts_append builds_append node_queries_append)
          next
            case rc: (Inr rc)
            from assms g Inr bb tx raw ss txh ww rc h e0 f q cache show ?thesis
              by (intro exI [of _ "evs0 @ [Build nonce, Sign, SendRaw, Receipt (status rc)]"])
                 (auto simp: send_attempt_def called_def mark_def Let_def receipts_append
                    attempts_append builds_append node_queries_append increment_nonce_def
                    split: if_splits)
          qed
        qed
      qed
    qed
  qed
qed

subsection \<open>The retry loop\<close>

lemma run_summary_exhausted:
  "n \<le> a \<Longrightarrow> run_summary a n (Failure msg) cache []"
  unfolding run_summary_def by (auto intro: exI [of _ 0])

lemma run_summary_return:
  assumes "a < n" and "attempts evs1 = []" and "length (builds evs1) \<le> 1"
    and "count_list evs1 SendRaw \<le> 1"
    and "case r of
           Success ok \<Rightarrow>
             receipts evs1 = [1] \<and> last evs1 = Receipt 1
             \<and> (\<exists>m. builds evs1 = [m] \<and> cache = Some (m + 1))
         | Failure msg \<Rightarrow>
             msg = ''Transaction failed (status 0)''
             \<and> (\<exists>st. st \<noteq> 1 \<and> receipts evs1 = [st] \<and> last evs1 = Receipt st)"
  shows "run_summary a n r cache (Attempt (int a) # evs1)"
proof -
  have k: "\<exists>k \<le> n. attempts (Attempt (int a) # evs1) = map int [a..<k]"
    using assms(1,2) by (intro exI [of _ "Suc a"]) simp
  have ne: "evs1 \<noteq> []"
    using assms(5) by (cases r) auto
  show ?thesis
    unfolding run_summary_def
    using k ne assms(2-5) by (cases r) auto
qed

lemma run_summary_last_error:
  assumes "attempts evs1 = []" and "length (builds evs1) \<le> 1"
    and "count_list evs1 SendRaw \<le> 1" and "receipts evs1 = []"
  shows "run_summary a (Suc a) (Failure msg) cache (Attempt (int a) # evs1)"
proof -
  have "\<exists>k \<le> Suc a. attempts (Attempt (int a) # evs1) = map int [a..<k]"
    using assms(1) by (intro exI [of _ "Suc a"]) simp
  then show ?thesis
    unfolding run_summary_def using assms by auto
qed

lemma run_summary_continue:
  assumes r: "run_summary (Suc a) n r cache evs2" and an: "a < n"
    and p: "attempts pre = [int a]" "receipts pre = []" "length (builds pre) \<le> 1"
      "count_list pre SendRaw \<le> 1"
  shows "run_summary a n r cache (pre @ evs2)"
proof -
  from r obtain k where k: "k \<le> n" "attempts evs2 = map int [Suc a..<k]"
    unfolding run_summary_def by blast
  have c1: "\<exists>k \<le> n. attempts (pre @ evs2) = map int [a..<k]"
  proof (cases "Suc a \<le> k")
    case True
    then have "map int [a..<k] = int a # map int [Suc a..<k]"
      by (simp add: upt_conv_Cons)
    with k p(1) show ?thesis
      by (intro exI [of _ k]) (simp add: attempts_append)
  next
    case False
    with k p(1) an show ?thesis
      by (intro exI [of _ "Suc a"]) (simp add: attempts_append)
  qed
  have c2: "length (builds (pre @ evs2)) \<le> length (attempts (pre @ evs2))"
    using r p unfolding run_summary_def by (simp add: builds_append attempts_append)
  have c3: "count_list (pre @ evs2) SendRaw \<le> length (attempts (pre @ evs2))"
    using r p unfolding run_summary_def by (simp add: attempts_append)
  have rc: "receipts (pre @ evs2) = receipts evs2"
    using p by (simp add: receipts_append)
  have c4: "success r \<longleftrightarrow> 1 \<in> set (receipts (pre @ evs2))"
    using r unfolding run_summary_def rc by blast
  have c5: "\<forall>st \<in> set (receipts (pre @ evs2)).
      last (pre @ evs2) = Receipt st \<and> receipts (pre @ evs2) = [st]"
  proof
    fix st assume "st \<in> set (receipts (pre @ evs2))"
    then have m: "st \<in> set (receipts evs2)" by (simp add: rc)
    then have "evs2 \<noteq> []" by auto
    with m r show "last (pre @ evs2) = Receipt st \<and> receipts (pre @ evs2) = [st]"
      unfolding run_summary_def rc by simp
  qed
  have c6: "\<forall>st \<in> set (receipts (pre @ evs2)).
      st \<noteq> 1 \<longrightarrow> r = Failure ''Transaction failed (status 0)''"
    using r unfolding run_summary_def rc by blast
  have c7: "receipts (pre @ evs2) = [] \<longrightarrow> attempts (pre @ evs2) = map int [a..<n]"
  proof
    assume "receipts (pre @ evs2) = []"
    with r have "attempts evs2 = map int [Suc a..<n]"
      unfolding run_summary_def rc by blast
    with p(1) an show "attempts (pre @ evs2) = map int [a..<n]"
      by (simp add: attempts_append upt_conv_Cons)
  qed
  have c8: "success r \<longrightarrow>
      builds (pre @ evs2) \<noteq> [] \<and> cache = Some (last (builds (pre @ evs2)) + 1)"
    using r unfolding run_summary_def by (auto simp: builds_append)
  from c1 c2 c3 c4 c5 c6 c7 c8 show ?thesis
    unfolding run_summary_def by blast
qed

lemma send_loop_run:
  assumes "send_loop w3 b (int n) (map int [a..<n]) s = (r, s')"
  shows "\<exists>evs. history s' = history s @ evs
    \<and> account s' = account s \<and> private_key s' = private_key s
    \<and> run_summary a n r (nonce_cache s') evs"
  using assms
proof (induction "n - a" arbitrary: a s)
  case 0
  then have "r = Failure ''Max retries exceeded''" "s' = s" "n \<le> a"
    by auto
  then show ?case
    by (intro exI [of _ "[]"]) (simp add: run_summary_exhausted)
next
  case (Suc k)
  then have an: "a < n" and k: "k = n - Suc a" by simp_all
  then have l: "map int [a..<n] = int a # map int [Suc a..<n]"
    by (simp add: upt_conv_Cons)
  obtain r1 s1 where at: "send_attempt w3 b (int a) (mark (Attempt (int a)) s) = (r1, s1)"
    by (cases "send_attempt w3 b (int a) (mark (Attempt (int a)) s)")
  from send_attempt_run [OF at] obtain evs1 where
    h1: "history s1 = history s @ Attempt (int a) # evs1" and
    e1: "attempts evs1 = []" "length (builds evs1) \<le> 1" "count_list evs1 SendRaw \<le> 1" and
    f1: "account s1 = account s" "private_key s1 = private_key s" and
    c1: "case r1 of
          Inl e \<Rightarrow> receipts evs1 = []
        | Inr (Success ok) \<Rightarrow>
            receipts evs1 = [1] \<and> last evs1 = Receipt 1
            \<and> (\<exists>n. builds evs1 = [n] \<and> nonce_cache s1 = Some (n + 1))
        | Inr (Failure msg) \<Rightarrow>
            msg = ''Transaction failed (status 0)''
            \<and> (\<exists>st. st \<noteq> 1 \<and> receipts evs1 = [st] \<and> last evs1 = Receipt st)"
    by (auto simp: mark_fields)
  show ?case
  proof (cases r1)
    case (Inr res)
    with Suc.prems l at have eq: "r = res" "s' = s1" by simp_all
    from c1 Inr have "case res of
           Success ok \<Rightarrow>
             receipts evs1 = [1] \<and> last evs1 = Receipt 1
             \<and> (\<exists>m. builds evs1 = [m] \<and> nonce_cache s1 = Some (m + 1))
         | Failure msg \<Rightarrow>
             msg = ''Transaction failed (status 0)''
             \<and> (\<exists>st. st \<noteq> 1 \<and> receipts evs1 = [st] \<and> last evs1 = Receipt st)"
      by simp
    from run_summary_return [OF an e1 this] h1 f1 show ?thesis
      unfolding eq by (intro exI [of _ "Attempt (int a) # evs1"]) simp
  next
    case (Inl e)
    with c1 have r1: "receipts evs1 = []" by simp
    define pre where "pre d = Attempt (int a) # evs1 @ [Sleep d]" for d
    have pre: "attempts (pre d) = [int a]" "receipts (pre d) = []"
      "length (builds (pre d)) \<le> 1" "count_list (pre d) SendRaw \<le> 1" for d
      using e1 r1 by (simp_all add: pre_def attempts_append receipts_append builds_append)
    have continue: ?thesis
      if rec: "send_loop w3 b (int n) (map int [Suc a..<n]) s2 = (r, s')"
        and s2: "history s2 = history s1 @ [Sleep d]" "account s2 = account s1"
          "private_key s2 = private_key s1" for s2 d
    proof -
      from Suc.hyps(1) [OF k rec] obtain evs2 where
        i: "history s' = history s2 @ evs2" "account s' = account s2"
          "private_key s' = private_key s2"
          "run_summary (Suc a) n r (nonce_cache s') evs2"
        by blast
      from run_summary_continue [OF i(4) an pre] i(1-3) s2 h1 f1 show ?thesis
        by (intro exI [of _ "pre d @ evs2"]) (simp add: pre_def)
    qed
    show ?thesis
    proof (cases "nonce_error (exc_str e)")
      case True
      with Suc.prems l at Inl have
        "send_loop w3 b (int n) (map int [Suc a..<n])
           (called (Sleep 2) (do_sleep w3 2 (world s1)) (s1\<lparr>nonce_cache := None\<rparr>)) = (r, s')"
        by (simp add: Let_def)
      then show ?thesis
        by (rule continue) (simp_all add: called_def)
    next
      case False
      show ?thesis
      proof (cases "Suc a = n")
        case True
        then have "int a = int n - 1" by auto
        with Suc.prems l at Inl False have eq: "r = Failure (exc_str e)" "s' = s1"
          by (simp_all add: Let_def)
        from run_summary_last_error [OF e1 r1, of a "exc_str e" "nonce_cache s1"] h1 f1 True
        show ?thesis
          unfolding eq by (intro exI [of _ "Attempt (int a) # evs1"]) auto
      next
        case ne: False
        then have "int a \<noteq> int n - 1" by linarith
        with Suc.prems l at Inl False have
          "send_loop w3 b (int n) (map int [Suc a..<n])
             (called (Sleep 1) (do_sleep w3 1 (world s1)) s1) = (r, s')"
          by (simp add: Let_def)
        then show ?thesis
          by (rule continue) (simp_all add: called_def)
      qed
    qed
  qed
qed

lemma send_transaction_with_retry_run:
  assumes "send_transaction_with_retry w3 b max_retries s = (r, s')"
  shows "\<exists>evs. history s' = history s @ evs
    \<and> account s' = account s \<and> private_key s' = private_key s
    \<and> run_summary 0 (nat max_retries) r (nonce_cache s') evs"
proof (cases "max_retries \<le> 0")
  case True
  then have "nat max_retries = 0" by simp
  with assms have "r = Failure ''Max retries exceeded''" "s' = s"
    by (simp_all add: send_transaction_with_retry_def py_range_def)
  with True show ?thesis
    by (intro exI [of _ "[]"]) (simp add: run_summary_exhausted)
next
  case False
  then have "int (nat max_retries) = max_retries" by simp
  with assms have
    "send_loop w3 b (int (nat max_retries)) (map int [0..<nat max_retries]) s = (r, s')"
    by (simp only: send_transaction_with_retry_def py_range_def)
  then show ?thesis by (rule send_loop_run)
qed

text \<open>
  C1. For every transaction builder, \<open>_send_transaction_with_retry\<close> makes at most
  \<open>max_retries\<close> attempts (and sends at most one raw transaction in each), and returns
  a dict with \<open>success = True\<close> exactly when some attempt yields a mined receipt with
  status 1. A receipt with another status makes it return
  \<open>{'success': False, 'error': 'Transaction failed (status 0)'}\<close> at once: the receipt
  is the last event of the run. Without a receipt every attempt of
  \<open>range(max_retries)\<close> was made and the result is a failure dict; the method has no
  exceptional outcome.
\<close>

theorem send_transaction_with_retry_bounded:
  assumes "send_transaction_with_retry w3 transaction_builder max_retries s = (r, s')"
  shows "history s' = history s @ events_since s s'
    \<and> length (attempts (events_since s s')) \<le> nat max_retries
    \<and> count_list (events_since s s') SendRaw \<le> length (attempts (events_since s s'))
    \<and> (success r \<longleftrightarrow> 1 \<in> set (receipts (events_since s s')))
    \<and> (\<forall>st \<in> set (receipts (events_since s s')).
          st \<noteq> 1 \<longrightarrow> r = Failure ''Transaction failed (status 0)'')
    \<and> (\<forall>st \<in> set (receipts (events_since s s')).
          last (events_since s s') = Receipt st \<and> receipts (events_since s s') = [st])
    \<and> (receipts (events_since s s') = [] \<longrightarrow>
          attempts (events_since s s') = py_range max_retries \<and> (\<exists>msg. r = Failure msg))"
proof -
  from send_transaction_with_retry_run [OF assms] obtain evs where
    h: "history s' = history s @ evs" and
    r: "run_summary 0 (nat max_retries) r (nonce_cache s') evs"
    by blast
  have e: "events_since s s' = evs"
    using h by (rule events_since_append)
  from r obtain k where k: "k \<le> nat max_retries" "attempts evs = map int [0..<k]"
    unfolding run_summary_def by blast
  then have c1: "length (attempts evs) \<le> nat max_retries" by simp
  have c2: "receipts evs = [] \<longrightarrow> (\<exists>msg. r = Failure msg)"
    using r unfolding run_summary_def by (cases r) auto
  from h c1 c2 r show ?thesis
    unfolding e run_summary_def py_range_def by blast
qed

theorem send_transaction_with_retry_bounded_witness:
  "send_transaction_with_retry (demo_w3 False) demo_builder 3 stale_state
     = (Success \<lparr> tx_hash = ''0xabc'', block_number = 100, receipt_gas_used = 21000,
                  receipt = \<lparr> status = 1, blockNumber = 100, gasUsed = 21000 \<rparr>,
                  repo_id = None \<rparr>,
        \<lparr> account = Some ''0xA11CE'', private_key = Some ''key'', nonce_cache = Some 8,
          last_nonce_update = 12, world = (22, 1),
          history = [Attempt 0, Build 5, Sleep 2, Attempt 1, GetTransactionCount ''pending'',
                     Build 7, Sign, SendRaw, Receipt 1] \<rparr>)
   \<and> length (attempts [Attempt 0, Build 5, Sleep 2, Attempt 1,
        GetTransactionCount ''pending'', Build 7, Sign, SendRaw, Receipt 1]) \<le> nat 3
   \<and> 1 \<in> set (receipts [Attempt 0, Build 5, Sleep 2, Attempt 1,
        GetTransactionCount ''pending'', Build 7, Sign, SendRaw, Receipt 1])"
proof -
  have run: "send_transaction_with_retry (demo_w3 False) demo_builder 3 stale_state
     = (Success \<lparr> tx_hash = ''0xabc'', block_number = 100, receipt_gas_used = 21000,
                  receipt = \<lparr> status = 1, blockNumber = 100, gasUsed = 21000 \<rparr>,
                  repo_id = None \<rparr>,
        \<lparr> account = Some ''0xA11CE'', private_key = Some ''key'', nonce_cache = Some 8,
          last_nonce_update = 12, world = (22, 1),
          history = [Attempt 0, Build 5, Sleep 2, Attempt 1, GetTransactionCount ''pending'',
                     Build 7, Sign, SendRaw, Receipt 1] \<rparr>)"
    by (simp add: send_transaction_with_retry_def py_range_def upt_conv_Cons
        send_attempt_def get_nonce_def refresh_nonce_def increment_nonce_def
        demo_w3_def demo_builder_def estimate_and_build_def stale_state_def
        called_def mark_def nonce_error_def str_lower_def lower_char_def Let_def)
  from send_transaction_with_retry_bounded [OF run] run show ?thesis
    by (simp add: events_since_def stale_state_def)
qed

subsection \<open>The cache and the node\<close>

text \<open>
  C3. \<open>_get_nonce\<close> returns the cached nonce without querying the node (state, world
  and history are unchanged) whenever \<open>force_refresh\<close> is false, the cache is not
  \<open>None\<close> and at most 30 seconds have passed since the last update. Otherwise it asks
  for the pending transaction count of the account and caches it, with the time of the
  refresh; when that query raises it falls back to the latest count, which it caches
  without touching the time of the last refresh.
\<close>

theorem get_nonce_cached_or_fetched:
  "(\<not> force_refresh \<and> nonce_cache s = Some cached
      \<and> time_time w3 (world s) - last_nonce_update s \<le> 30 \<longrightarrow>
        get_nonce w3 force_refresh s = (Inr cached, s))
   \<and> ((force_refresh \<or> nonce_cache s = None
        \<or> time_time w3 (world s) - last_nonce_update s > 30)
       \<and> account s = Some address \<longrightarrow>
        (\<forall>n w1. get_transaction_count w3 address ''pending'' (world s) = (Inr n, w1) \<longrightarrow>
           get_nonce w3 force_refresh s =
             (Inr n, s\<lparr> nonce_cache := Some n,
                        last_nonce_update := time_time w3 (world s),
                        world := w1,
                        history := history s @ [GetTransactionCount ''pending''] \<rparr>))
        \<and> (\<forall>e w1 n w2.
             get_transaction_count w3 address ''pending'' (world s) = (Inl e, w1)
             \<and> get_transaction_count w3 address ''latest'' w1 = (Inr n, w2) \<longrightarrow>
               get_nonce w3 force_refresh s =
                 (Inr n, s\<lparr> nonce_cache := Some n,
                            world := w2,
                            history := history s @ [GetTransactionCount ''pending'',
                                                    GetTransactionCount ''latest''] \<rparr>)))"
  by (auto simp: get_nonce_def refresh_nonce_def called_def Let_def split: option.splits)

theorem get_nonce_cached_or_fetched_witness:
  "get_nonce (demo_w3 True) False fresh_state = (Inr 7, fresh_state)
   \<and> get_nonce (demo_w3 False) True fresh_state
       = (Inr 7, fresh_state\<lparr> nonce_cache := Some 7, last_nonce_update := 10, world := (10, 0),
                              history := [GetTransactionCount ''pending''] \<rparr>)
   \<and> get_nonce (demo_w3 True) True fresh_state
       = (Inr 7, fresh_state\<lparr> nonce_cache := Some 7, world := (10, 0),
                              history := [GetTransactionCount ''pending'',
                                          GetTransactionCount ''latest''] \<rparr>)
   \<and> last_nonce_update (snd (get_nonce (demo_w3 True) True fresh_state)) = 5"
proof -
  have a: "nonce_cache fresh_state = Some 7"
    and b: "time_time (demo_w3 True) (world fresh_state) - last_nonce_update fresh_state \<le> 30"
    and c: "account fresh_state = Some ''0xA11CE''"
    and d: "time_time (demo_w3 pd) (world fresh_state) = 10"
    and e: "history fresh_state = []" for pd
    by (simp_all add: fresh_state_def demo_w3_def)
  have p: "get_transaction_count (demo_w3 False) ''0xA11CE'' ''pending'' (world fresh_state)
      = (Inr 7, (10, 0))"
    and q: "get_transaction_count (demo_w3 True) ''0xA11CE'' ''pending'' (world fresh_state)
      = (Inl (PyExc ''ValueError'' ''pending block is not available''), (10, 0))"
    and l: "get_transaction_count (demo_w3 True) ''0xA11CE'' ''latest'' (10, 0)
      = (Inr 7, (10, 0))"
    by (simp_all add: fresh_state_def demo_w3_def)
  from get_nonce_cached_or_fetched [of False fresh_state 7 "demo_w3 True" "''0xA11CE''"] a b
  have 1: "get_nonce (demo_w3 True) False fresh_state = (Inr 7, fresh_state)"
    by blast
  from get_nonce_cached_or_fetched [of True fresh_state 7 "demo_w3 False" "''0xA11CE''"] c p
  have 2: "get_nonce (demo_w3 False) True fresh_state
       = (Inr 7, fresh_state\<lparr> nonce_cache := Some 7, last_nonce_update := 10, world := (10, 0),
                              history := [GetTransactionCount ''pending''] \<rparr>)"
    by (simp add: d e)
  from get_nonce_cached_or_fetched [of True fresh_state 7 "demo_w3 True" "''0xA11CE''"] c q l
  have 3: "get_nonce (demo_w3 True) True fresh_state
       = (Inr 7, fresh_state\<lparr> nonce_cache := Some 7, world := (10, 0),
                              history := [GetTransactionCount ''pending'',
                                          GetTransactionCount ''latest''] \<rparr>)"
    by (simp add: e)
  from 1 2 3 show ?thesis
    by (simp add: fresh_state_def)
qed

lemma refresh_nonce_fetched:
  assumes "refresh_nonce w3 t s = (Inr n, s')"
  shows "''pending'' \<in> set (node_queries (events_since s s'))
    \<and> (\<exists>address. account s = Some address \<and> fetched_nonce w3 address (world s) = Some n)"
  using assms
  by (auto simp: refresh_nonce_def fetched_nonce_def called_def events_since_def Let_def
      split: option.splits prod.splits sum.splits)

lemma get_nonce_uncached:
  assumes "nonce_cache s = None" and "get_nonce w3 force s = (Inr n, s')"
  shows "''pending'' \<in> set (node_queries (events_since s s'))
    \<and> (\<exists>address. account s = Some address \<and> fetched_nonce w3 address (world s) = Some n)"
  using assms refresh_nonce_fetched [of w3 "time_time w3 (world s)" s n s']
  by (simp add: get_nonce_def)

lemma send_attempt_uncached:
  assumes c: "nonce_cache s = None" and a: "send_attempt w3 b a s = (r, s')"
    and n: "n \<in> set (builds (events_since s s'))"
  shows "''pending'' \<in> set (node_queries (events_since s s'))
    \<and> (\<exists>address. account s = Some address \<and> fetched_nonce w3 address (world s) = Some n)"
proof -
  from send_attempt_run [OF a] obtain evs r0 s1 where
    h: "history s' = history s @ evs" and
    g: "get_nonce w3 (a > 0) s = (r0, s1)" and
    q: "node_queries evs = node_queries (events_since s s1)" and
    b: "\<forall>n \<in> set (builds evs). r0 = Inr n"
    by blast
  have e: "events_since s s' = evs"
    using h by (rule events_since_append)
  from n b have "r0 = Inr n" by (simp add: e)
  with g get_nonce_uncached [OF c, of w3 "a > 0" n s1] show ?thesis
    by (simp add: e q)
qed

text \<open>
  C2. When an attempt of \<open>_send_transaction_with_retry\<close> raises an exception whose
  text contains \<open>nonce\<close> in any case, the loop goes on to the next attempt (if one
  remains) from a state \<open>s2\<close> whose cached nonce is \<open>None\<close>, two seconds later. In an
  attempt made from that state, every nonce handed to the transaction builder is the
  count the node gave in that attempt (the pending count, or the latest one when the
  pending query raised): the stale cache is not used.
\<close>

theorem nonce_error_invalidates_cache:
  assumes "send_attempt w3 transaction_builder attempt (mark (Attempt attempt) s) = (Inl e, s1)"
    and "str_contains ''nonce'' (str_lower (exc_str e))"
  shows "\<exists>s2. s2 = called (Sleep 2) (do_sleep w3 2 (world s1)) (s1\<lparr> nonce_cache := None \<rparr>)
    \<and> send_loop w3 transaction_builder max_retries (attempt # rest) s
        = send_loop w3 transaction_builder max_retries rest s2
    \<and> nonce_cache s2 = None
    \<and> (\<forall>next r3 s3 n.
          send_attempt w3 transaction_builder next (mark (Attempt next) s2) = (r3, s3)
          \<and> n \<in> set (builds (events_since (mark (Attempt next) s2) s3)) \<longrightarrow>
            ''pending'' \<in> set (node_queries (events_since (mark (Attempt next) s2) s3))
            \<and> (\<exists>address. account s2 = Some address
                  \<and> fetched_nonce w3 address (world s2) = Some n))"
proof -
  define s2 where "s2 = called (Sleep 2) (do_sleep w3 2 (world s1)) (s1\<lparr> nonce_cache := None \<rparr>)"
  have ne: "nonce_error (exc_str e)"
    using assms(2) by (simp add: nonce_error_def)
  have 1: "send_loop w3 transaction_builder max_retries (attempt # rest) s
        = send_loop w3 transaction_builder max_retries rest s2"
    using assms(1) ne by (simp add: s2_def Let_def)
  have 2: "nonce_cache s2 = None"
    by (simp add: s2_def called_def)
  have 3: "''pending'' \<in> set (node_queries (events_since (mark (Attempt next) s2) s3))
            \<and> (\<exists>address. account s2 = Some address
                  \<and> fetched_nonce w3 address (world s2) = Some n)"
    if "send_attempt w3 transaction_builder next (mark (Attempt next) s2) = (r3, s3)"
      and "n \<in> set (builds (events_since (mark (Attempt next) s2) s3))" for "next" r3 s3 n
    using send_attempt_uncached [OF _ that] 2 by (simp add: mark_fields)
  from 1 2 3 show ?thesis
    unfolding s2_def by blast
qed

theorem nonce_error_invalidates_cache_witness:
  "send_attempt (demo_w3 False) demo_builder 0 (mark (Attempt 0) stale_state)
     = (Inl (PyExc ''ValueError'' ''Nonce too low''),
        stale_state\<lparr> history := [Attempt 0, Build 5] \<rparr>)
   \<and> str_contains ''nonce'' (str_lower ''Nonce too low'')
   \<and> send_loop (demo_w3 False) demo_builder 3 [0, 1, 2] stale_state
       = send_loop (demo_w3 False) demo_builder 3 [1, 2]
           (stale_state\<lparr> nonce_cache := None, world := (12, 0),
                          history := [Attempt 0, Build 5, Sleep 2] \<rparr>)
   \<and> builds (events_since
        (stale_state\<lparr> nonce_cache := None, world := (12, 0),
                       history := [Attempt 0, Build 5, Sleep 2, Attempt 1] \<rparr>)
        (snd (send_attempt (demo_w3 False) demo_builder 1
           (stale_state\<lparr> nonce_cache := None, world := (12, 0),
                          history := [Attempt 0, Build 5, Sleep 2, Attempt 1] \<rparr>)))) = [7]
   \<and> fetched_nonce (demo_w3 False) ''0xA11CE'' (12, 0) = Some 7"
proof -
  have a: "send_attempt (demo_w3 False) demo_builder 0 (mark (Attempt 0) stale_state)
     = (Inl (PyExc ''ValueError'' ''Nonce too low''),
        stale_state\<lparr> history := [Attempt 0, Build 5] \<rparr>)"
    by (simp add: send_attempt_def get_nonce_def demo_w3_def demo_builder_def
        stale_state_def called_def mark_def Let_def)
  have b: "str_contains ''nonce'' (str_lower (exc_str (PyExc ''ValueError'' ''Nonce too low'')))"
    by (simp add: str_lower_def lower_char_def)
  have c: "called (Sleep 2) (do_sleep (demo_w3 False) 2
              (world (stale_state\<lparr> history := [Attempt 0, Build 5] \<rparr>)))
            (stale_state\<lparr> history := [Attempt 0, Build 5], nonce_cache := None \<rparr>)
       = stale_state\<lparr> nonce_cache := None, world := (12, 0),
                      history := [Attempt 0, Build 5, Sleep 2] \<rparr>"
    by (simp add: called_def demo_w3_def stale_state_def)
  have d: "builds (events_since
        (stale_state\<lparr> nonce_cache := None, world := (12, 0),
                       history := [Attempt 0, Build 5, Sleep 2, Attempt 1] \<rparr>)
        (snd (send_attempt (demo_w3 False) demo_builder 1
           (stale_state\<lparr> nonce_cache := None, world := (12, 0),
                          history := [Attempt 0, Build 5, Sleep 2, Attempt 1] \<rparr>)))) = [7]"
    by (simp add: send_attempt_def get_nonce_def refresh_nonce_def increment_nonce_def
        demo_w3_def demo_builder_def estimate_and_build_def stale_state_def called_def
        mark_def events_since_def Let_def)
  have f: "fetched_nonce (demo_w3 False) ''0xA11CE'' (12, 0) = Some 7"
    by (simp add: fetched_nonce_def demo_w3_def)
  from nonce_error_invalidates_cache [OF a b, of 3 "[1, 2]"] c
  have "send_loop (demo_w3 False) demo_builder 3 [0, 1, 2] stale_state
       = send_loop (demo_w3 False) demo_builder 3 [1, 2]
           (stale_state\<lparr> nonce_cache := None, world := (12, 0),
                          history := [Attempt 0, Build 5, Sleep 2] \<rparr>)"
    by simp
  with a b d f show ?thesis by simp
qed

subsection \<open>Consecutive nonces\<close>

text \<open>
  A successful submission that made its first attempt only, from a warm cache holding
  \<open>c\<close>, handed \<open>c\<close> to the builder.
\<close>

lemma warm_first_attempt:
  assumes run: "send_transaction_with_retry w3 b m s = (r, s')" and ok: "success r"
    and one: "attempts (events_since s s') = [0]"
    and c: "nonce_cache s = Some c"
    and warm: "time_time w3 (world s) - last_nonce_update s \<le> 30"
  shows "builds (events_since s s') = [c]"
proof -
  have m: "0 < m"
  proof (rule ccontr)
    assume "\<not> 0 < m"
    then have "nat m = 0" by simp
    with run have "r = Failure ''Max retries exceeded''"
      by (simp add: send_transaction_with_retry_def py_range_def)
    with ok show False by simp
  qed
  define n where "n = nat m"
  with m have n: "0 < n" "int n = m" by simp_all
  then have l: "py_range m = 0 # map int [Suc 0..<n]"
    by (simp add: py_range_def n_def upt_conv_Cons)
  obtain r1 s1 where at: "send_attempt w3 b 0 (mark (Attempt 0) s) = (r1, s1)"
    by (cases "send_attempt w3 b 0 (mark (Attempt 0) s)")
  have g: "get_nonce w3 (0 < (0::int)) (mark (Attempt 0) s) = (Inr c, mark (Attempt 0) s)"
    using c warm by (simp add: get_nonce_def mark_def)
  from send_attempt_run [OF at] g obtain evs1 where
    h1: "history s1 = history s @ Attempt 0 # evs1" and
    a1: "attempts evs1 = []" and
    b1: "\<forall>x \<in> set (builds evs1). x = c" and
    c1: "case r1 of
          Inl e \<Rightarrow> receipts evs1 = []
        | Inr (Success ok) \<Rightarrow>
            receipts evs1 = [1] \<and> last evs1 = Receipt 1
            \<and> (\<exists>n. builds evs1 = [n] \<and> nonce_cache s1 = Some (n + 1))
        | Inr (Failure msg) \<Rightarrow>
            msg = ''Transaction failed (status 0)''
            \<and> (\<exists>st. st \<noteq> 1 \<and> receipts evs1 = [st] \<and> last evs1 = Receipt st)"
    by (auto simp: mark_fields)
  show ?thesis
  proof (cases r1)
    case (Inr res)
    with run l at have eq: "r = res" "s' = s1"
      by (simp_all add: send_transaction_with_retry_def)
    with ok c1 Inr obtain x where "builds evs1 = [x]"
      by (cases res) auto
    with b1 have "builds evs1 = [c]" by simp
    moreover have "events_since s s' = Attempt 0 # evs1"
      using h1 unfolding eq by (rule events_since_append)
    ultimately show ?thesis by simp
  next
    case (Inl e)
    with run l at ok have
      "\<exists>s2 d. send_loop w3 b (int n) (map int [Suc 0..<n]) s2 = (r, s')
         \<and> history s2 = history s1 @ [Sleep d]"
      by (auto simp: send_transaction_with_retry_def Let_def called_def n split: if_splits)
    then obtain s2 d where
      rec: "send_loop w3 b (int n) (map int [Suc 0..<n]) s2 = (r, s')" and
      h2: "history s2 = history s1 @ [Sleep d]"
      by blast
    from send_loop_run [OF rec] obtain evs2 where
      h3: "history s' = history s2 @ evs2" and
      rs: "run_summary (Suc 0) n r (nonce_cache s') evs2"
      by blast
    from rs ok have "builds evs2 \<noteq> []" "length (builds evs2) \<le> length (attempts evs2)"
      unfolding run_summary_def by blast+
    then have ne: "attempts evs2 \<noteq> []" by auto
    have "history s' = history s @ Attempt 0 # evs1 @ Sleep d # evs2"
      using h1 h2 h3 by simp
    then have "events_since s s' = Attempt 0 # evs1 @ Sleep d # evs2"
      by (rule events_since_append)
    with a1 ne one show ?thesis
      by (simp add: attempts_append)
  qed
qed

text \<open>
  C4. After \<open>_send_transaction_with_retry\<close> returns success, the cached nonce is the
  nonce handed to the builder of the successful transaction (the last one of the run)
  plus exactly 1. A second successful submission that follows with a warm cache (its
  first attempt succeeds, so no refresh is forced, and at most 30 seconds have passed
  since the last refresh) uses that nonce plus 1, and leaves the cache at plus 2.
\<close>

theorem cached_nonce_consecutive:
  assumes "send_transaction_with_retry w3 builder1 max1 s0 = (r1, s1)" and "success r1"
  shows "builds (events_since s0 s1) \<noteq> []
    \<and> nonce_cache s1 = Some (last (builds (events_since s0 s1)) + 1)
    \<and> (\<forall>builder2 max2 r2 s2.
          send_transaction_with_retry w3 builder2 max2 s1 = (r2, s2) \<and> success r2
          \<and> attempts (events_since s1 s2) = [0]
          \<and> time_time w3 (world s1) - last_nonce_update s1 \<le> 30 \<longrightarrow>
            builds (events_since s1 s2) = [last (builds (events_since s0 s1)) + 1]
            \<and> nonce_cache s2 = Some (last (builds (events_since s0 s1)) + 2))"
proof -
  have first: "builds (events_since s s') \<noteq> []
      \<and> nonce_cache s' = Some (last (builds (events_since s s')) + 1)"
    if "send_transaction_with_retry w3 b m s = (r, s')" "success r" for b m s r s'
  proof -
    from send_transaction_with_retry_run [OF that(1)] obtain evs where
      h: "history s' = history s @ evs" and
      rs: "run_summary 0 (nat m) r (nonce_cache s') evs"
      by blast
    from rs that(2) show ?thesis
      unfolding events_since_append [OF h] run_summary_def by blast
  qed
  note 1 = first [OF assms]
  have 2: "builds (events_since s1 s2) = [last (builds (events_since s0 s1)) + 1]
            \<and> nonce_cache s2 = Some (last (builds (events_since s0 s1)) + 2)"
    if "send_transaction_with_retry w3 builder2 max2 s1 = (r2, s2)" "success r2"
      "attempts (events_since s1 s2) = [0]"
      "time_time w3 (world s1) - last_nonce_update s1 \<le> 30" for builder2 max2 r2 s2
  proof -
    from 1 have c: "nonce_cache s1 = Some (last (builds (events_since s0 s1)) + 1)"
      by blast
    from warm_first_attempt [OF that(1,2,3) c that(4)] first [OF that(1,2)]
    show ?thesis by simp
  qed
  from 1 2 show ?thesis by blast
qed

theorem cached_nonce_consecutive_witness:
  "send_transaction_with_retry (demo_w3 False) demo_builder 3 fresh_state
     = (Success \<lparr> tx_hash = ''0xabc'', block_number = 100, receipt_gas_used = 21000,
                  receipt = \<lparr> status = 1, blockNumber = 100, gasUsed = 21000 \<rparr>,
                  repo_id = None \<rparr>,
        fresh_state\<lparr> nonce_cache := Some 8, world := (20, 1),
                      history := [Attempt 0, Build 7, Sign, SendRaw, Receipt 1] \<rparr>)
   \<and> send_transaction_with_retry (demo_w3 False) demo_builder 3
        (fresh_state\<lparr> nonce_cache := Some 8, world := (20, 1),
                       history := [Attempt 0, Build 7, Sign, SendRaw, Receipt 1] \<rparr>)
     = (Success \<lparr> tx_hash = ''0xabc'', block_number = 101, receipt_gas_used = 21000,
                  receipt = \<lparr> status = 1, blockNumber = 101, gasUsed = 21000 \<rparr>,
                  repo_id = None \<rparr>,
        fresh_state\<lparr> nonce_cache := Some 9, world := (30, 2),
                      history := [Attempt 0, Build 7, Sign, SendRaw, Receipt 1,
                                  Attempt 0, Build 8, Sign, SendRaw, Receipt 1] \<rparr>)
   \<and> last (builds [Attempt 0, Build 7, Sign, SendRaw, Receipt 1]) + 1 = 8
   \<and> builds [Attempt 0, Build 8, Sign, SendRaw, Receipt 1]
       = [last (builds [Attempt 0, Build 7, Sign, SendRaw, Receipt 1]) + 1]"
proof -
  let ?ok0 = "Success \<lparr> tx_hash = ''0xabc'', block_number = 100, receipt_gas_used = 21000,
                  receipt = \<lparr> status = 1, blockNumber = 100, gasUsed = 21000 \<rparr>,
                  repo_id = None \<rparr>"
  let ?ok1 = "Success \<lparr> tx_hash = ''0xabc'', block_number = 101, receipt_gas_used = 21000,
                  receipt = \<lparr> status = 1, blockNumber = 101, gasUsed = 21000 \<rparr>,
                  repo_id = None \<rparr>"
  let ?s1 = "fresh_state\<lparr> nonce_cache := Some 8, world := (20, 1),
                      history := [Attempt 0, Build 7, Sign, SendRaw, Receipt 1] \<rparr>"
  let ?s2 = "fresh_state\<lparr> nonce_cache := Some 9, world := (30, 2),
                      history := [Attempt 0, Build 7, Sign, SendRaw, Receipt 1,
                                  Attempt 0, Build 8, Sign, SendRaw, Receipt 1] \<rparr>"
  have run1: "send_transaction_with_retry (demo_w3 False) demo_builder 3 fresh_state
      = (?ok0, ?s1)"
    by (simp add: send_transaction_with_retry_def py_range_def upt_conv_Cons
        send_attempt_def get_nonce_def refresh_nonce_def increment_nonce_def
        demo_w3_def demo_builder_def estimate_and_build_def fresh_state_def
        called_def mark_def nonce_error_def str_lower_def lower_char_def Let_def)
  have run2: "send_transaction_with_retry (demo_w3 False) demo_builder 3 ?s1 = (?ok1, ?s2)"
    by (simp add: send_transaction_with_retry_def py_range_def upt_conv_Cons
        send_attempt_def get_nonce_def refresh_nonce_def increment_nonce_def
        demo_w3_def demo_builder_def estimate_and_build_def fresh_state_def
        called_def mark_def nonce_error_def str_lower_def lower_char_def Let_def)
  have e1: "events_since fresh_state ?s1 = [Attempt 0, Build 7, Sign, SendRaw, Receipt 1]"
    and e2: "events_since ?s1 ?s2 = [Attempt 0, Build 8, Sign, SendRaw, Receipt 1]"
    by (simp_all add: events_since_def fresh_state_def)
  have warm: "time_time (demo_w3 False) (world ?s1) - last_nonce_update ?s1 \<le> 30"
    by (simp add: demo_w3_def fresh_state_def)
  have one: "attempts (events_since ?s1 ?s2) = [0]"
    unfolding e2 by simp
  have "builds (events_since ?s1 ?s2) = [last (builds (events_since fresh_state ?s1)) + 1]"
    using cached_nonce_consecutive [of "demo_w3 False" demo_builder 3 fresh_state ?ok0 ?s1]
      run1 run2 warm one
    by (metis success.simps(1))
  then have "builds [Attempt 0, Build 8, Sign, SendRaw, Receipt 1]
       = [last (builds [Attempt 0, Build 7, Sign, SendRaw, Receipt 1]) + 1]"
    unfolding e1 e2 .
  with run1 run2 show ?thesis
    by simp
qed

subsection \<open>Read-only mode\<close>

text \<open>
  C10. When no account is configured, each of \<open>register_repository_on_chain\<close>,
  \<open>add_link_to_registry\<close> and \<open>file_dmca_on_chain\<close> returns
  \<open>{'success': False, 'error': 'No account configured for transactions'}\<close> and leaves
  the state as it was: nothing is built, signed or sent (the world and the history are
  the same) and the nonce cache is not written.
\<close>

theorem read_only_mode_no_effect:
  assumes "account s = None"
  shows "register_repository_on_chain w3 repo_data s
           = (Failure ''No account configured for transactions'', s)
    \<and> add_link_to_registry w3 github_url license_cid s
           = (Failure ''No account configured for transactions'', s)
    \<and> file_dmca_on_chain w3 infringing_url dmca_cid s
           = (Failure ''No account configured for transactions'', s)"
  using assms
  by (simp add: register_repository_on_chain_def add_link_to_registry_def
      file_dmca_on_chain_def)

theorem read_only_mode_no_effect_witness:
  "account read_only_state = None
   \<and> register_repository_on_chain (demo_w3 False)
        [''github_url'' \<mapsto> ''https://github.com/o/r''] read_only_state
       = (Failure ''No account configured for transactions'', read_only_state)
   \<and> add_link_to_registry (demo_w3 False) ''https://github.com/o/r'' ''QmX'' read_only_state
       = (Failure ''No account configured for transactions'', read_only_state)
   \<and> file_dmca_on_chain (demo_w3 False) ''https://github.com/x/y'' ''QmY'' read_only_state
       = (Failure ''No account configured for transactions'', read_only_state)"
proof -
  have a: "account read_only_state = None"
    by (simp add: read_only_state_def)
  from read_only_mode_no_effect [OF a] a show ?thesis by blast
qed


section \<open>Properties of EnhancedIPFSManager\<close>

lemma determine_service_priority_eq:
  "determine_service_priority api_key api_secret token =
     (if truthy api_key \<and> truthy api_secret then [''pinata''] else [])
     @ (if truthy token then [''web3_storage''] else [])
     @ [''local_ipfs'', ''local_file'']"
  by (simp add: determine_service_priority_def Let_def)

lemma determine_service_priority_known:
  "set (determine_service_priority api_key api_secret token)
     \<subseteq> {''pinata'', ''web3_storage'', ''local_ipfs'', ''local_file''}"
  by (auto simp: determine_service_priority_eq)

lemma try_service_known:
  assumes "service \<in> {''pinata'', ''web3_storage'', ''local_ipfs'', ''local_file''}"
  shows "\<exists>out w1. try_service env mgr service file_path metadata w = (Some out, w1)"
  using assms by (auto simp: try_service_def split: prod.splits)

text \<open>
  The loop over a list of known services: the services tried are a prefix of the list,
  all but the last one raised, and the result is what the last one returned, or the
  final exception when the whole list was tried and every service raised.
\<close>

lemma upload_loop_tried:
  assumes "set services \<subseteq> {''pinata'', ''web3_storage'', ''local_ipfs'', ''local_file''}"
    and "upload_loop env mgr file_path metadata services w = (r, w', tried)"
  shows "map fst tried = take (length tried) services
    \<and> (\<forall>x \<in> set (butlast tried). isl (snd x))
    \<and> (\<forall>x \<in> set tried.
          \<exists>w0 w1. try_service env mgr (fst x) file_path metadata w0 = (Some (snd x), w1))
    \<and> (case r of
          Inr h \<Rightarrow> tried \<noteq> [] \<and> snd (last tried) = Inr h
        | Inl e \<Rightarrow>
            e = PyExc ''Exception'' ''All IPFS upload methods failed''
            \<and> map fst tried = services \<and> (\<forall>x \<in> set tried. isl (snd x)))"
  using assms
proof (induction services arbitrary: w r w' tried)
  case Nil
  then show ?case by auto
next
  case (Cons service rest)
  from Cons.prems(1) have known:
    "service \<in> {''pinata'', ''web3_storage'', ''local_ipfs'', ''local_file''}"
    and rest: "set rest \<subseteq> {''pinata'', ''web3_storage'', ''local_ipfs'', ''local_file''}"
    by simp_all
  from try_service_known [OF known, of env mgr file_path metadata w] obtain out w1 where
    t: "try_service env mgr service file_path metadata w = (Some out, w1)"
    by blast
  show ?case
  proof (cases out)
    case (Inr h)
    with Cons.prems(2) t have "r = Inr h" "tried = [(service, Inr h)]"
      by auto
    with t Inr show ?thesis by auto
  next
    case (Inl e)
    obtain r2 w2 tried2 where
      rec: "upload_loop env mgr file_path metadata rest w1 = (r2, w2, tried2)"
      by (metis prod_cases3)
    with Cons.prems(2) t Inl have eq: "r = r2" "tried = (service, Inl e) # tried2"
      by simp_all
    note ih = Cons.IH [OF rest rec]
    have 1: "map fst tried = take (length tried) (service # rest)"
      using ih by (simp add: eq)
    have 2: "\<forall>x \<in> set (butlast tried). isl (snd x)"
      using ih by (simp add: eq)
    have 3: "\<forall>x \<in> set tried.
          \<exists>w0 w1. try_service env mgr (fst x) file_path metadata w0 = (Some (snd x), w1)"
      using ih t Inl by (auto simp: eq)
    have 4: "case r of
          Inr h \<Rightarrow> tried \<noteq> [] \<and> snd (last tried) = Inr h
        | Inl e \<Rightarrow>
            e = PyExc ''Exception'' ''All IPFS upload methods failed''
            \<and> map fst tried = service # rest \<and> (\<forall>x \<in> set tried. isl (snd x))"
      using ih by (cases r2) (auto simp: eq)
    from 1 2 3 4 show ?thesis by blast
  qed
qed

text \<open>
  C5. The priority list fixed at construction is Pinata (only when both Pinata
  credentials are configured), then Web3.Storage (only when a token is configured),
  then the local IPFS node, then the local-file fallback. For a path that does not
  exist \<open>upload_to_ipfs\<close> raises FileNotFoundError before trying any service. For an
  existing file it tries the services in exactly that order, each after the one
  before it raised, and returns the result of the first service that does not raise;
  it raises \<open>All IPFS upload methods failed\<close> exactly when every service of the list
  was tried and raised.
\<close>

theorem upload_to_ipfs_priority_order:
  assumes "mgr = init_manager config"
    and "upload_to_ipfs env mgr file_path metadata w = (r, w', tried)"
  shows "service_priority mgr =
       (if truthy (cfg_PINATA_API_KEY config) \<and> truthy (cfg_PINATA_API_SECRET config)
        then [''pinata''] else [])
       @ (if truthy (cfg_WEB3_STORAGE_TOKEN config) then [''web3_storage''] else [])
       @ [''local_ipfs'', ''local_file'']
    \<and> (\<not> path_exists env file_path w \<longrightarrow>
          r = Inl (PyExc ''FileNotFoundError'' (''File not found: '' @ file_path))
          \<and> tried = [] \<and> w' = w)
    \<and> (path_exists env file_path w \<longrightarrow>
          map fst tried = take (length tried) (service_priority mgr)
          \<and> (\<forall>x \<in> set (butlast tried). isl (snd x))
          \<and> (\<forall>x \<in> set tried.
                \<exists>w0 w1. try_service env mgr (fst x) file_path metadata w0 = (Some (snd x), w1))
          \<and> (\<forall>h. r = Inr h \<longleftrightarrow> tried \<noteq> [] \<and> snd (last tried) = Inr h)
          \<and> (\<forall>e. r = Inl e \<longleftrightarrow>
                e = PyExc ''Exception'' ''All IPFS upload methods failed''
                \<and> map fst tried = service_priority mgr \<and> (\<forall>x \<in> set tried. isl (snd x))))"
proof -
  have sp: "service_priority mgr =
      determine_service_priority (cfg_PINATA_API_KEY config) (cfg_PINATA_API_SECRET config)
        (cfg_WEB3_STORAGE_TOKEN config)"
    by (simp add: assms(1) init_manager_def)
  have 1: "service_priority mgr =
       (if truthy (cfg_PINATA_API_KEY config) \<and> truthy (cfg_PINATA_API_SECRET config)
        then [''pinata''] else [])
       @ (if truthy (cfg_WEB3_STORAGE_TOKEN config) then [''web3_storage''] else [])
       @ [''local_ipfs'', ''local_file'']"
    unfolding sp by (rule determine_service_priority_eq)
  have 2: "r = Inl (PyExc ''FileNotFoundError'' (''File not found: '' @ file_path))
          \<and> tried = [] \<and> w' = w" if "\<not> path_exists env file_path w"
    using that assms(2) by (auto simp: upload_to_ipfs_def)
  have 3: "map fst tried = take (length tried) (service_priority mgr)
          \<and> (\<forall>x \<in> set (butlast tried). isl (snd x))
          \<and> (\<forall>x \<in> set tried.
                \<exists>w0 w1. try_service env mgr (fst x) file_path metadata w0 = (Some (snd x), w1))
          \<and> (\<forall>h. r = Inr h \<longleftrightarrow> tried \<noteq> [] \<and> snd (last tried) = Inr h)
          \<and> (\<forall>e. r = Inl e \<longleftrightarrow>
                e = PyExc ''Exception'' ''All IPFS upload methods failed''
                \<and> map fst tried = service_priority mgr \<and> (\<forall>x \<in> set tried. isl (snd x)))"
    if "path_exists env file_path w"
  proof -
    from that assms(2) have
      l: "upload_loop env mgr file_path metadata (service_priority mgr) w = (r, w', tried)"
      by (simp add: upload_to_ipfs_def)
    have k: "set (service_priority mgr)
        \<subseteq> {''pinata'', ''web3_storage'', ''local_ipfs'', ''local_file''}"
      unfolding sp by (rule determine_service_priority_known)
    note u = upload_loop_tried [OF k l]
    from u have a: "map fst tried = take (length tried) (service_priority mgr)"
      and b: "\<forall>x \<in> set (butlast tried). isl (snd x)"
      and c: "\<forall>x \<in> set tried.
                \<exists>w0 w1. try_service env mgr (fst x) file_path metadata w0 = (Some (snd x), w1)"
      by blast+
    have ni: "\<not> (\<forall>x \<in> set tried. isl (snd x))" if "tried \<noteq> []" "snd (last tried) = Inr h"
      for h
    proof
      assume "\<forall>x \<in> set tried. isl (snd x)"
      with that(1) have "isl (snd (last tried))" by simp
      with that(2) show False by simp
    qed
    have d: "(\<forall>h. r = Inr h \<longleftrightarrow> tried \<noteq> [] \<and> snd (last tried) = Inr h)
          \<and> (\<forall>e. r = Inl e \<longleftrightarrow>
                e = PyExc ''Exception'' ''All IPFS upload methods failed''
                \<and> map fst tried = service_priority mgr \<and> (\<forall>x \<in> set tried. isl (snd x)))"
    proof (cases r)
      case (Inl e)
      from u have "case r of
          Inr h \<Rightarrow> tried \<noteq> [] \<and> snd (last tried) = Inr h
        | Inl e \<Rightarrow>
            e = PyExc ''Exception'' ''All IPFS upload methods failed''
            \<and> map fst tried = service_priority mgr \<and> (\<forall>x \<in> set tried. isl (snd x))"
        by blast
      then have e: "e = PyExc ''Exception'' ''All IPFS upload methods failed''"
        "map fst tried = service_priority mgr" "\<forall>x \<in> set tried. isl (snd x)"
        unfolding Inl by simp_all
      from e(3) ni have "\<forall>h. \<not> (tried \<noteq> [] \<and> snd (last tried) = Inr h)"
        by blast
      with Inl e show ?thesis by blast
    next
      case (Inr h)
      from u have "case r of
          Inr h \<Rightarrow> tried \<noteq> [] \<and> snd (last tried) = Inr h
        | Inl e \<Rightarrow>
            e = PyExc ''Exception'' ''All IPFS upload methods failed''
            \<and> map fst tried = service_priority mgr \<and> (\<forall>x \<in> set tried. isl (snd x))"
        by blast
      then have h: "tried \<noteq> []" "snd (last tried) = Inr h"
        unfolding Inr by simp_all
      from ni [OF h] Inr h show ?thesis by auto
    qed
    from a b c d show ?thesis by blast
  qed
  from 1 2 3 show ?thesis by blast
qed

theorem upload_to_ipfs_priority_order_witness:
  "service_priority (init_manager pinata_config) = [''pinata'', ''local_ipfs'', ''local_file'']
   \<and> upload_to_ipfs (demo_storage False) (init_manager pinata_config) ''report.pdf'' None
        [''report.pdf'']
       = (Inr ''local:///work/report.pdf'', [''report.pdf''],
          [(''pinata'', Inl (PyExc ''HTTPError'' ''503 Server Error'')),
           (''local_ipfs'', Inl (PyExc ''ConnectionError'' ''Connection refused'')),
           (''local_file'', Inr ''local:///work/report.pdf'')])
   \<and> upload_to_ipfs (demo_storage True) (init_manager pinata_config) ''missing.pdf'' None
        [''report.pdf'']
       = (Inl (PyExc ''FileNotFoundError'' ''File not found: missing.pdf''), [''report.pdf''], [])"
proof -
  have e: "path_exists (demo_storage False) ''report.pdf'' [''report.pdf'']"
    and n: "\<not> path_exists (demo_storage True) ''missing.pdf'' [''report.pdf'']"
    by (simp_all add: demo_storage_def)
  have run: "upload_to_ipfs (demo_storage False) (init_manager pinata_config) ''report.pdf'' None
        [''report.pdf'']
       = (Inr ''local:///work/report.pdf'', [''report.pdf''],
          [(''pinata'', Inl (PyExc ''HTTPError'' ''503 Server Error'')),
           (''local_ipfs'', Inl (PyExc ''ConnectionError'' ''Connection refused'')),
           (''local_file'', Inr ''local:///work/report.pdf'')])"
    by (simp add: upload_to_ipfs_def try_service_def upload_to_pinata_def
        upload_to_local_ipfs_def fallback_local_storage_def init_manager_def
        determine_service_priority_def truthy_def pinata_config_def demo_storage_def Let_def)
  obtain r w' tried where miss:
    "upload_to_ipfs (demo_storage True) (init_manager pinata_config) ''missing.pdf'' None
        [''report.pdf''] = (r, w', tried)"
    by (metis prod_cases3)
  from upload_to_ipfs_priority_order [OF refl miss] n
  have m: "r = Inl (PyExc ''FileNotFoundError'' (''File not found: '' @ ''missing.pdf''))"
    "tried = []" "w' = [''report.pdf'']"
    by blast+
  have t: "truthy (cfg_PINATA_API_KEY pinata_config)"
    "truthy (cfg_PINATA_API_SECRET pinata_config)"
    "\<not> truthy (cfg_WEB3_STORAGE_TOKEN pinata_config)"
    by (simp_all add: truthy_def pinata_config_def)
  from upload_to_ipfs_priority_order [OF refl run, THEN conjunct1]
  have sp: "service_priority (init_manager pinata_config)
      = [''pinata'', ''local_ipfs'', ''local_file'']"
    by (simp only: t simp_thms if_True if_False append_Cons append_Nil)
  have "upload_to_ipfs (demo_storage True) (init_manager pinata_config) ''missing.pdf'' None
        [''report.pdf'']
       = (Inl (PyExc ''FileNotFoundError'' ''File not found: missing.pdf''), [''report.pdf''], [])"
    unfolding miss m by simp
  with sp run show ?thesis by blast
qed


section \<open>Properties of the similarity threshold\<close>










end
